theory Spec2Isabelle
  imports Complex_Main "HOL-Library.Word" "HOL-Library.Multiset"
begin

section \<open>Githubbeat: the collection pass of beater/githubbeat.go\<close>

text \<open>
  The theory embeds the functions of \<^verbatim>\<open>beater/githubbeat.go\<close> that build and publish
  the event of a repository. The remote API client (go-github), the clock and the order
  in which Go's \<^verbatim>\<open>range\<close> visits a map are inputs of the program; they are parameters
  of the model. The context argument \<^verbatim>\<open>ctx\<close> is only handed on to the client and is
  part of the client's behaviour here.
\<close>

subsection \<open>Go values\<close>

text \<open>Go's \<^verbatim>\<open>int\<close> on a 64-bit platform: addition and subtraction wrap around.\<close>

type_synonym go_int = "64 word"

text \<open>A non-nil \<^verbatim>\<open>error\<close>; the interface value is an \<open>error option\<close>, \<open>None\<close> for nil.\<close>

datatype error = Error string

type_synonym time = nat

subsection \<open>Floating-point numbers\<close>

text \<open>
  A \<^verbatim>\<open>float64\<close> is an IEEE 754 binary64 value: not a number (NaN), an infinity, a
  zero of either sign, or a finite number with a significand of 53 bits. \<open>Finite 0\<close> is
  the positive zero; the other finite values are carried as the rational number they
  denote.
\<close>

datatype float64 = NaN | PosInf | NegInf | NegZero | Finite rat

text \<open>The number of binary digits of a positive integer (0 for the others).\<close>

function bit_length :: "int \<Rightarrow> int" where
  "bit_length i = (if 0 < i then bit_length (i div 2) + 1 else 0)"
  by pat_completeness auto
termination
  by (relation "measure nat") auto

declare bit_length.simps [simp del]

text \<open>For a positive \<open>a\<close>, the exponent \<open>e\<close> with \<open>2 ^ e \<le> a < 2 ^ (e + 1)\<close>.\<close>

definition floor_log2 :: "rat \<Rightarrow> int" where
  "floor_log2 a =
     (if 1 \<le> a then bit_length \<lfloor>a\<rfloor> - 1 else - bit_length (\<lceil>1 / a\<rceil> - 1))"

text \<open>The nearest integer, the even one of the two when they are equally near.\<close>

definition round_half_even :: "rat \<Rightarrow> int" where
  "round_half_even m =
     (let f = \<lfloor>m\<rfloor>; d = m - of_int f
      in if d < 1 / 2 then f else if 1 / 2 < d then f + 1 else if even f then f else f + 1)"

text \<open>
  Rounding of an exact result to binary64, to nearest with ties to even, which is the
  rounding of Go's conversions and arithmetic. The spacing of the representable numbers
  around \<open>a\<close> is \<open>2 ^ (e - 52)\<close>, with the exponent \<open>e\<close> of \<open>a\<close> but no less than -1022
  (the subnormal numbers); a result of \<open>2 ^ 1024\<close> or more is an infinity, and a result
  that rounds to zero keeps the sign.
\<close>

definition float64_round :: "rat \<Rightarrow> float64" where
  "float64_round x =
     (if x = 0 then Finite 0
      else (let a = \<bar>x\<bar>;
                e = max (floor_log2 a) (- 1022);
                ulp = power_int 2 (e - 52);
                r = of_int (round_half_even (a / ulp)) * ulp
            in if power_int 2 1024 \<le> r then (if 0 < x then PosInf else NegInf)
               else if r = 0 then (if 0 < x then Finite 0 else NegZero)
               else Finite (if 0 < x then r else - r)))"

text \<open>\<^verbatim>\<open>float64(n)\<close> for an \<^verbatim>\<open>int\<close>: the integer, rounded.\<close>

definition float64_of_int :: "go_int \<Rightarrow> float64" where
  "float64_of_int n = float64_round (of_int (sint n))"

definition sign_bit :: "float64 \<Rightarrow> bool" where
  "sign_bit x =
     (case x of NegInf \<Rightarrow> True | NegZero \<Rightarrow> True | Finite q \<Rightarrow> q < 0 | _ \<Rightarrow> False)"

definition is_zero :: "float64 \<Rightarrow> bool" where
  "is_zero x = (x = NegZero \<or> x = Finite 0)"

definition is_infinite :: "float64 \<Rightarrow> bool" where
  "is_infinite x = (x = PosInf \<or> x = NegInf)"

text \<open>The number a finite value denotes (0 for the zeros, and for the others).\<close>

definition float64_val :: "float64 \<Rightarrow> rat" where
  "float64_val x = (case x of Finite q \<Rightarrow> q | _ \<Rightarrow> 0)"

text \<open>
  Floating-point division. It never panics: a zero divided by a zero and an infinity
  divided by an infinity are NaN, another number divided by a zero is an infinity, and
  the sign of a zero or an infinity is negative when the signs of the operands differ.
  The quotient of two finite numbers other than zero is the exact quotient, rounded.
\<close>

definition float64_div :: "float64 \<Rightarrow> float64 \<Rightarrow> float64" where
  "float64_div x y =
     (let negative = (sign_bit x \<noteq> sign_bit y) in
      if x = NaN \<or> y = NaN then NaN
      else if is_infinite x then (if is_infinite y then NaN else if negative then NegInf else PosInf)
      else if is_infinite y then (if negative then NegZero else Finite 0)
      else if is_zero y then (if is_zero x then NaN else if negative then NegInf else PosInf)
      else if is_zero x then (if negative then NegZero else Finite 0)
      else float64_round (float64_val x / float64_val y))"

text \<open>\<^verbatim>\<open>float64(count) / float64(sum)\<close>.\<close>

definition float64_quot :: "go_int \<Rightarrow> go_int \<Rightarrow> float64" where
  "float64_quot n d = float64_div (float64_of_int n) (float64_of_int d)"

subsection \<open>Events\<close>

text \<open>
  The values stored in a \<^verbatim>\<open>common.MapStr\<close> (a \<^verbatim>\<open>map[string]interface{}\<close>) by this
  program. A key bound to a nil error is present in the map, with value \<open>VError None\<close>.
\<close>

datatype val =
    VInt go_int
  | VString string
  | VFloat float64
  | VTime time
  | VError "error option"
  | VMapStr "string \<Rightarrow> val option"
  | VList "val list"

type_synonym MapStr = "string \<Rightarrow> val option"

subsection \<open>The data of the API client\<close>

text \<open>
  A record field named after a getter holds what the getter returns (the zero value
  for an absent field). A pointer that the program reads through nil-safe getters, or
  compares with nil, is an option.
\<close>

record user =
  Login :: string

definition User_GetLogin :: "user option \<Rightarrow> string" where
  "User_GetLogin u = (case u of None \<Rightarrow> [] | Some v \<Rightarrow> Login v)"

record repository =
  Repository_GetName :: string
  Repository_Owner :: "user option"
  Repository_GetStargazersCount :: go_int
  Repository_GetForksCount :: go_int
  Repository_GetWatchersCount :: go_int
  Repository_GetOpenIssuesCount :: go_int
  Repository_GetSubscribersCount :: go_int
  Repository_GetNetworkCount :: go_int
  Repository_GetSize :: go_int

record contributor =
  Contributor_GetLogin :: string
  Contributor_GetContributions :: go_int

record commit =
  SHA :: string

definition Commit_GetSHA :: "commit option \<Rightarrow> string" where
  "Commit_GetSHA k = (case k of None \<Rightarrow> [] | Some v \<Rightarrow> SHA v)"

record branch =
  Branch_GetName :: string
  Branch_Commit :: "commit option"

record license =
  License_GetKey :: string
  License_GetName :: string
  License_GetSPDXID :: string

record repository_license =
  RepositoryLicense_Path :: string
  RepositoryLicense_SHA :: string
  RepositoryLicense_License :: "license option"

definition RepositoryLicense_GetPath :: "repository_license option \<Rightarrow> string" where
  "RepositoryLicense_GetPath l = (case l of None \<Rightarrow> [] | Some v \<Rightarrow> RepositoryLicense_Path v)"

definition RepositoryLicense_GetSHA :: "repository_license option \<Rightarrow> string" where
  "RepositoryLicense_GetSHA l = (case l of None \<Rightarrow> [] | Some v \<Rightarrow> RepositoryLicense_SHA v)"

definition RepositoryLicense_GetLicense :: "repository_license option \<Rightarrow> license option" where
  "RepositoryLicense_GetLicense l = (case l of None \<Rightarrow> None | Some v \<Rightarrow> RepositoryLicense_License v)"

record repository_participation =
  Participation_All :: "go_int list"
  Participation_Owner :: "go_int list"

record release_asset =
  Asset_GetDownloadCount :: go_int

record repository_release =
  Release_GetID :: go_int
  Release_GetName :: string
  Release_Assets :: "release_asset list"

text \<open>
  \<^verbatim>\<open>bt.ghClient.Repositories\<close>: every method returns a value and an error, as the Go
  methods do (the response in between is dropped by every caller). A nil slice is the
  empty list. The language map is the list of its entries, one per key.
\<close>

record github_client =
  Get :: "string \<Rightarrow> string \<Rightarrow> repository option \<times> error option"
  ListByOrg :: "string \<Rightarrow> repository list \<times> error option"
  ListContributors :: "string \<Rightarrow> string \<Rightarrow> contributor list \<times> error option"
  ListBranches :: "string \<Rightarrow> string \<Rightarrow> branch list \<times> error option"
  ListLanguages :: "string \<Rightarrow> string \<Rightarrow> (string \<times> go_int) list \<times> error option"
  ListForks :: "string \<Rightarrow> string \<Rightarrow> repository list \<times> error option"
  License :: "string \<Rightarrow> string \<Rightarrow> repository_license option \<times> error option"
  ListParticipation :: "string \<Rightarrow> string \<Rightarrow> repository_participation option \<times> error option"
  ListReleases :: "string \<Rightarrow> string \<Rightarrow> repository_release list \<times> error option"

record Githubbeat =
  ghClient :: github_client

text \<open>
  What the Go runtime supplies while one event is built: the reading of \<^verbatim>\<open>time.Now()\<close>
  and, for each of the two \<^verbatim>\<open>range\<close> statements over the language map, the order in
  which the entries are visited. Go leaves that order unspecified, and it may differ from
  one \<^verbatim>\<open>range\<close> statement to the next.
\<close>

type_synonym range_order = "(string \<times> go_int) list \<Rightarrow> (string \<times> go_int) list"

record go_runtime =
  time_Now :: time
  range_first :: range_order
  range_second :: range_order

definition is_range_order :: "range_order \<Rightarrow> bool" where
  "is_range_order ro = (\<forall>xs. mset (ro xs) = mset xs)"

subsection \<open>Helpers\<close>

definition createListMapStr :: "MapStr list \<Rightarrow> error option \<Rightarrow> MapStr" where
  "createListMapStr list err =
     [''count'' \<mapsto> VInt (of_nat (length list)),
      ''list'' \<mapsto> VList (map VMapStr list),
      ''error'' \<mapsto> VError err]"

definition appendError :: "MapStr \<Rightarrow> error option \<Rightarrow> MapStr" where
  "appendError input err = (if err \<noteq> None then input(''error'' \<mapsto> VError err) else input)"

definition sumIntArray :: "go_int list \<Rightarrow> go_int" where
  "sumIntArray array = fold (\<lambda>i sum. sum + i) array 0"

text \<open>
  \<^verbatim>\<open>strings.Split(s, sep)\<close> of the Go library for a separator of one character: the
  pieces of \<open>s\<close> between the occurrences of the separator, in order. A string without
  the separator (the empty string too) gives one piece.
\<close>

fun Split :: "string \<Rightarrow> char \<Rightarrow> string list" where
  "Split [] sep = [[]]"
| "Split (c # s) sep =
     (if c = sep then [] # Split s sep
      else (case Split s sep of [] \<Rightarrow> [[c]] | p # ps \<Rightarrow> (c # p) # ps))"

subsection \<open>The sections of an event\<close>

definition extractRepoData :: "repository \<Rightarrow> MapStr" where
  "extractRepoData repo =
     [''repo'' \<mapsto> VString (Repository_GetName repo),
      ''owner'' \<mapsto> VString (User_GetLogin (Repository_Owner repo)),
      ''stargazers'' \<mapsto> VInt (Repository_GetStargazersCount repo),
      ''forks'' \<mapsto> VInt (Repository_GetForksCount repo),
      ''watchers'' \<mapsto> VInt (Repository_GetWatchersCount repo),
      ''open_issues'' \<mapsto> VInt (Repository_GetOpenIssuesCount repo),
      ''subscribers'' \<mapsto> VInt (Repository_GetSubscribersCount repo),
      ''network'' \<mapsto> VInt (Repository_GetNetworkCount repo),
      ''size'' \<mapsto> VInt (Repository_GetSize repo)]"

text \<open>The loop runs only when the listing returned no error.\<close>

definition getContributions :: "Githubbeat \<Rightarrow> string \<Rightarrow> string \<Rightarrow> MapStr" where
  "getContributions bt owner repository =
     (let (contributors, err) = ListContributors (ghClient bt) owner repository;
          (users, total) =
            (if err = None
             then fold (\<lambda>contributor (users, total).
                    (users @ [[''name'' \<mapsto> VString (Contributor_GetLogin contributor),
                               ''contributions'' \<mapsto> VInt (Contributor_GetContributions contributor)]],
                     total + Contributor_GetContributions contributor))
                  contributors ([], 0 :: go_int)
             else ([], 0))
      in createListMapStr users err)"

definition getBranches :: "Githubbeat \<Rightarrow> string \<Rightarrow> string \<Rightarrow> MapStr" where
  "getBranches bt owner repository =
     (let (branches, err) = ListBranches (ghClient bt) owner repository;
          branchList =
            (if err = None
             then fold (\<lambda>branch branchList.
                    branchList @ [[''name'' \<mapsto> VString (Branch_GetName branch),
                                   ''sha'' \<mapsto> VString (Commit_GetSHA (Branch_Commit branch))]])
                  branches []
             else [])
      in createListMapStr branchList err)"

text \<open>Both loops run over the returned map whatever the error is.\<close>

definition collectLanguageInfo :: "go_runtime \<Rightarrow> Githubbeat \<Rightarrow> string \<Rightarrow> string \<Rightarrow> MapStr" where
  "collectLanguageInfo rt bt owner repository =
     (let (langs, err) = ListLanguages (ghClient bt) owner repository;
          sum = fold (\<lambda>(_, count) sum. sum + count) (range_first rt langs) 0;
          out = fold (\<lambda>(lang, count) out.
                  out @ [[''lang'' \<mapsto> VString lang,
                          ''bytes'' \<mapsto> VInt count,
                          ''ratio'' \<mapsto> VFloat (float64_quot count sum)]])
                (range_second rt langs) []
      in createListMapStr out err)"

definition collectForkInfo :: "Githubbeat \<Rightarrow> string \<Rightarrow> string \<Rightarrow> MapStr" where
  "collectForkInfo bt owner repository =
     (let (forks, err) = ListForks (ghClient bt) owner repository;
          forkInfo = fold (\<lambda>repo forkInfo. forkInfo @ [extractRepoData repo]) forks []
      in createListMapStr forkInfo err)"

definition extractLicenseData :: "repository_license option \<Rightarrow> MapStr" where
  "extractLicenseData repositoryLicense =
     (let out = [''path'' \<mapsto> VString (RepositoryLicense_GetPath repositoryLicense),
                 ''sha'' \<mapsto> VString (RepositoryLicense_GetSHA repositoryLicense)]
      in case RepositoryLicense_GetLicense repositoryLicense of
           Some license \<Rightarrow>
             out(''key'' \<mapsto> VString (License_GetKey license),
                 ''name'' \<mapsto> VString (License_GetName license),
                 ''spdx_id'' \<mapsto> VString (License_GetSPDXID license))
         | None \<Rightarrow> out)"

definition collectLicenseInfo :: "Githubbeat \<Rightarrow> string \<Rightarrow> string \<Rightarrow> MapStr" where
  "collectLicenseInfo bt owner repository =
     (let (license, err) = License (ghClient bt) owner repository
      in appendError (extractLicenseData license) err)"

definition extractParticipationData :: "repository_participation option \<Rightarrow> MapStr" where
  "extractParticipationData participation =
     (let (all, owner) =
            (case participation of
               Some p \<Rightarrow> (sumIntArray (Participation_All p), sumIntArray (Participation_Owner p))
             | None \<Rightarrow> (0, 0))
      in [''all'' \<mapsto> VInt all,
          ''owner'' \<mapsto> VInt owner,
          ''community'' \<mapsto> VInt (all - owner),
          ''period'' \<mapsto> VString ''year''])"

definition collectParticipation :: "Githubbeat \<Rightarrow> string \<Rightarrow> string \<Rightarrow> MapStr" where
  "collectParticipation bt owner repository =
     (let (participation, err) = ListParticipation (ghClient bt) owner repository
      in appendError (extractParticipationData participation) err)"

definition collectDownloads :: "Githubbeat \<Rightarrow> string \<Rightarrow> string \<Rightarrow> MapStr" where
  "collectDownloads bt owner repository =
     (let (releases, err) = ListReleases (ghClient bt) owner repository;
          (totalDownloads, out) =
            fold (\<lambda>release (totalDownloads, out).
                   (let releaseDownloads =
                          fold (\<lambda>asset releaseDownloads. releaseDownloads + Asset_GetDownloadCount asset)
                            (Release_Assets release) 0
                    in (totalDownloads + releaseDownloads,
                        out @ [[''id'' \<mapsto> VInt (Release_GetID release),
                                ''name'' \<mapsto> VString (Release_GetName release),
                                ''downloads'' \<mapsto> VInt releaseDownloads]])))
                 releases (0, [])
      in [''total_downloads'' \<mapsto> VInt totalDownloads,
          ''releases'' \<mapsto> VList (map VMapStr out),
          ''error'' \<mapsto> VError err])"

subsection \<open>The event of a repository\<close>

text \<open>The seven sections are collected one after the other, in this order.\<close>

definition newFullRepoEvent :: "go_runtime \<Rightarrow> Githubbeat \<Rightarrow> repository \<Rightarrow> MapStr" where
  "newFullRepoEvent rt bt repo =
     (let data = extractRepoData repo;
          data = data(''@timestamp'' \<mapsto> VTime (time_Now rt));
          data = data(''type'' \<mapsto> VString ''githubbeat'');
          owner = User_GetLogin (Repository_Owner repo);
          repository = Repository_GetName repo;
          data = data(''license'' \<mapsto> VMapStr (collectLicenseInfo bt owner repository));
          data = data(''fork_list'' \<mapsto> VMapStr (collectForkInfo bt owner repository));
          data = data(''contributor_list'' \<mapsto> VMapStr (getContributions bt owner repository));
          data = data(''branch_list'' \<mapsto> VMapStr (getBranches bt owner repository));
          data = data(''languages'' \<mapsto> VMapStr (collectLanguageInfo rt bt owner repository));
          data = data(''participation'' \<mapsto> VMapStr (collectParticipation bt owner repository));
          data = data(''downloads'' \<mapsto> VMapStr (collectDownloads bt owner repository))
      in data)"

subsection \<open>The targets of a pass\<close>

text \<open>
  What the goroutine started for one entry of \<^verbatim>\<open>repos\<close> does: it logs a format error,
  logs the error of the fetch, or publishes the event. The event is built from the
  pointer that \<^verbatim>\<open>Get\<close> returned; a nil pointer with a nil error would be dereferenced.
\<close>

datatype repo_outcome =
    InvalidRepoName string
  | FailedToCollect error
  | NilDereference
  | PublishEvent MapStr

definition collectRepoEvent :: "go_runtime \<Rightarrow> Githubbeat \<Rightarrow> string \<Rightarrow> repo_outcome" where
  "collectRepoEvent rt bt repo =
     (let r = Split repo CHR ''/'' in
      if length r \<noteq> 2 then InvalidRepoName repo
      else (let (res, err) = Get (ghClient bt) (r ! 0) (r ! 1) in
            case err of
              Some e \<Rightarrow> FailedToCollect e
            | None \<Rightarrow> (case res of
                         None \<Rightarrow> NilDereference
                       | Some rp \<Rightarrow> PublishEvent (newFullRepoEvent rt bt rp))))"

text \<open>
  One goroutine per entry, each with its own runtime inputs; the outcomes are listed in
  the order of the entries.
\<close>

definition collectReposEvents :: "(nat \<Rightarrow> go_runtime) \<Rightarrow> Githubbeat \<Rightarrow> string list \<Rightarrow> repo_outcome list" where
  "collectReposEvents rts bt repos =
     map (\<lambda>(i, repoName). collectRepoEvent (rts i) bt repoName) (enumerate 0 repos)"

text \<open>
  The goroutine of one organization logs the error of the listing and stops, or publishes
  one event for each repository of the listing, in the order of the listing.
\<close>

datatype org_outcome =
    FailedListing error
  | PublishEvents "MapStr list"

definition collectOrgEvents :: "(nat \<Rightarrow> go_runtime) \<Rightarrow> Githubbeat \<Rightarrow> string \<Rightarrow> org_outcome" where
  "collectOrgEvents rts bt org =
     (let (repos, err) = ListByOrg (ghClient bt) org in
      case err of
        Some e \<Rightarrow> FailedListing e
      | None \<Rightarrow> PublishEvents (map (\<lambda>(j, repo). newFullRepoEvent (rts j) bt repo) (enumerate 0 repos)))"

definition collectOrgsEvents :: "(nat \<Rightarrow> nat \<Rightarrow> go_runtime) \<Rightarrow> Githubbeat \<Rightarrow> string list \<Rightarrow> org_outcome list" where
  "collectOrgsEvents rts bt orgs =
     map (\<lambda>(i, org). collectOrgEvents (rts i) bt org) (enumerate 0 orgs)"

subsection \<open>Reading an event\<close>

text \<open>The map stored under a key of an event (the empty map when there is none).\<close>

definition nested :: "MapStr \<Rightarrow> string \<Rightarrow> MapStr" where
  "nested e k = (case e k of Some (VMapStr m) \<Rightarrow> m | _ \<Rightarrow> Map.empty)"

text \<open>A list-shaped section whose \<open>count\<close> is the length of its \<open>list\<close>.\<close>

definition count_is_length :: "MapStr \<Rightarrow> bool" where
  "count_is_length m =
     (case m ''count'' of
        Some (VInt n) \<Rightarrow>
          (case m ''list'' of Some (VList items) \<Rightarrow> n = of_nat (length items) | _ \<Rightarrow> False)
      | _ \<Rightarrow> False)"

text \<open>The entry of one language, given the sum of the byte counts.\<close>

definition language_entry :: "go_int \<Rightarrow> string \<times> go_int \<Rightarrow> MapStr" where
  "language_entry s = (\<lambda>(lang, n).
     [''lang'' \<mapsto> VString lang, ''bytes'' \<mapsto> VInt n, ''ratio'' \<mapsto> VFloat (float64_quot n s)])"

text \<open>The ratios of the entries of a languages section, in the order of its list.\<close>

definition ratio_of_entry :: "val \<Rightarrow> float64" where
  "ratio_of_entry v =
     (case v of
        VMapStr m \<Rightarrow> (case m ''ratio'' of Some (VFloat x) \<Rightarrow> x | _ \<Rightarrow> NaN)
      | _ \<Rightarrow> NaN)"

definition ratios_of :: "MapStr \<Rightarrow> float64 list" where
  "ratios_of m = (case m ''list'' of Some (VList items) \<Rightarrow> map ratio_of_entry items | _ \<Rightarrow> [])"

text \<open>A value that is a number: neither NaN nor an infinity.\<close>

definition is_finite :: "float64 \<Rightarrow> bool" where
  "is_finite x = (case x of Finite _ \<Rightarrow> True | NegZero \<Rightarrow> True | _ \<Rightarrow> False)"

subsection \<open>Example data\<close>

definition example_repo :: repository where
  "example_repo =
     \<lparr>Repository_GetName = ''Hello-World'',
      Repository_Owner = Some \<lparr>Login = ''octocat''\<rparr>,
      Repository_GetStargazersCount = 80,
      Repository_GetForksCount = 9,
      Repository_GetWatchersCount = 80,
      Repository_GetOpenIssuesCount = 2,
      Repository_GetSubscribersCount = 51,
      Repository_GetNetworkCount = 9,
      Repository_GetSize = 108\<rparr>"

definition example_fork :: repository where
  "example_fork = example_repo\<lparr>Repository_Owner := Some \<lparr>Login = ''hubot''\<rparr>\<rparr>"

definition not_found :: error where
  "not_found = Error ''404 Not Found''"

text \<open>A client whose fetches all succeed for \<^verbatim>\<open>octocat/Hello-World\<close>.\<close>

definition example_client :: github_client where
  "example_client =
     \<lparr>Get = (\<lambda>owner name.
        if owner = ''octocat'' \<and> name = ''Hello-World''
        then (Some example_repo, None) else (None, Some not_found)),
      ListByOrg = (\<lambda>org.
        if org = ''octocat'' then ([example_repo, example_fork], None) else ([], Some not_found)),
      ListContributors = (\<lambda>owner name.
        ([\<lparr>Contributor_GetLogin = ''octocat'', Contributor_GetContributions = 32\<rparr>,
          \<lparr>Contributor_GetLogin = ''hubot'', Contributor_GetContributions = 4\<rparr>], None)),
      ListBranches = (\<lambda>owner name.
        ([\<lparr>Branch_GetName = ''master'', Branch_Commit = Some \<lparr>SHA = ''7fd1a60''\<rparr>\<rparr>], None)),
      ListLanguages = (\<lambda>owner name. ([(''Go'', 300), (''Shell'', 100)], None)),
      ListForks = (\<lambda>owner name. ([example_fork], None)),
      License = (\<lambda>owner name.
        (Some \<lparr>RepositoryLicense_Path = ''LICENSE'', RepositoryLicense_SHA = ''401c59d'',
                RepositoryLicense_License =
                  Some \<lparr>License_GetKey = ''mit'', License_GetName = ''MIT License'',
                         License_GetSPDXID = ''MIT''\<rparr>\<rparr>, None)),
      ListParticipation = (\<lambda>owner name.
        (Some \<lparr>Participation_All = [5, 3, 0], Participation_Owner = [2, 1, 0]\<rparr>, None)),
      ListReleases = (\<lambda>owner name.
        ([\<lparr>Release_GetID = 1, Release_GetName = ''v1.0'',
            Release_Assets = [\<lparr>Asset_GetDownloadCount = 10\<rparr>, \<lparr>Asset_GetDownloadCount = 5\<rparr>]\<rparr>,
          \<lparr>Release_GetID = 2, Release_GetName = ''v1.1'',
            Release_Assets = [\<lparr>Asset_GetDownloadCount = 7\<rparr>]\<rparr>], None))\<rparr>"

definition example_bt :: Githubbeat where
  "example_bt = \<lparr>ghClient = example_client\<rparr>"

text \<open>The same client with every fetch of a section failing.\<close>

definition timed_out :: error where
  "timed_out = Error ''context deadline exceeded''"

definition failing_bt :: Githubbeat where
  "failing_bt =
     \<lparr>ghClient = example_client
        \<lparr>ListContributors := (\<lambda>owner name. ([], Some timed_out)),
         ListBranches := (\<lambda>owner name. ([], Some timed_out)),
         ListLanguages := (\<lambda>owner name. ([], Some timed_out)),
         ListForks := (\<lambda>owner name. ([], Some timed_out)),
         License := (\<lambda>owner name. (None, Some timed_out)),
         ListParticipation := (\<lambda>owner name. (None, Some timed_out)),
         ListReleases := (\<lambda>owner name. ([], Some timed_out))\<rparr>\<rparr>"

text \<open>The same client with only the fetch of the license failing.\<close>

definition no_license_bt :: Githubbeat where
  "no_license_bt =
     \<lparr>ghClient = example_client\<lparr>License := (\<lambda>owner name. (None, Some not_found))\<rparr>\<rparr>"

text \<open>The same client for a repository whose only language has no bytes.\<close>

definition zero_bytes_bt :: Githubbeat where
  "zero_bytes_bt =
     \<lparr>ghClient = example_client\<lparr>ListLanguages := (\<lambda>owner name. ([(''Go'', 0)], None))\<rparr>\<rparr>"

text \<open>The same client for a repository with one byte of Go and two bytes of C.\<close>

definition thirds_bt :: Githubbeat where
  "thirds_bt =
     \<lparr>ghClient = example_client\<lparr>ListLanguages := (\<lambda>owner name. ([(''Go'', 1), (''C'', 2)], None))\<rparr>\<rparr>"

text \<open>Two runs: the second visits the language map in the opposite order, later.\<close>

definition first_run :: go_runtime where
  "first_run = \<lparr>time_Now = 1500000000, range_first = id, range_second = id\<rparr>"

definition second_run :: go_runtime where
  "second_run = \<lparr>time_Now = 1500000060, range_first = id, range_second = rev\<rparr>"

section \<open>Properties\<close>

subsection \<open>Loops as sums and maps\<close>

lemma fold_plus_sum_list:
  fixes a :: "'a::comm_monoid_add"
  shows "fold (\<lambda>x s. s + f x) xs a = a + sum_list (map f xs)"
  by (induction xs arbitrary: a) (simp_all add: add.assoc)

lemma fold_snoc_map: "fold (\<lambda>x out. out @ [f x]) xs acc = acc @ map f xs"
  by (induction xs arbitrary: acc) simp_all

lemma sumIntArray_sum_list: "sumIntArray array = sum_list array"
  using fold_plus_sum_list [of "\<lambda>i. i" array 0] by (simp add: sumIntArray_def)

lemma getContributions_eq:
  "getContributions bt owner repository =
     createListMapStr
       (if snd (ListContributors (ghClient bt) owner repository) = None
        then map (\<lambda>c. [''name'' \<mapsto> VString (Contributor_GetLogin c),
                        ''contributions'' \<mapsto> VInt (Contributor_GetContributions c)])
               (fst (ListContributors (ghClient bt) owner repository))
        else [])
       (snd (ListContributors (ghClient bt) owner repository))"
proof -
  obtain cs err where r: "ListContributors (ghClient bt) owner repository = (cs, err)"
    by (cases "ListContributors (ghClient bt) owner repository")
  have "fold (\<lambda>contributor (users, total).
                (users @ [[''name'' \<mapsto> VString (Contributor_GetLogin contributor),
                           ''contributions'' \<mapsto> VInt (Contributor_GetContributions contributor)]],
                 total + Contributor_GetContributions contributor))
          cs (u, t) =
        (u @ map (\<lambda>c. [''name'' \<mapsto> VString (Contributor_GetLogin c),
                         ''contributions'' \<mapsto> VInt (Contributor_GetContributions c)]) cs,
         fold (\<lambda>c total. total + Contributor_GetContributions c) cs t)" for u t
    by (induction cs arbitrary: u t) simp_all
  from this [of "[]" 0] show ?thesis
    by (simp add: getContributions_def r)
qed

lemma getBranches_eq:
  "getBranches bt owner repository =
     createListMapStr
       (if snd (ListBranches (ghClient bt) owner repository) = None
        then map (\<lambda>b. [''name'' \<mapsto> VString (Branch_GetName b),
                        ''sha'' \<mapsto> VString (Commit_GetSHA (Branch_Commit b))])
               (fst (ListBranches (ghClient bt) owner repository))
        else [])
       (snd (ListBranches (ghClient bt) owner repository))"
  by (simp add: getBranches_def fold_snoc_map split_beta)

lemma collectForkInfo_eq:
  "collectForkInfo bt owner repository =
     createListMapStr (map extractRepoData (fst (ListForks (ghClient bt) owner repository)))
       (snd (ListForks (ghClient bt) owner repository))"
  by (simp add: collectForkInfo_def fold_snoc_map split_beta)

lemma fold_lang_sum:
  "fold (\<lambda>(_, count) sum. sum + count) xs (a :: go_int) = a + sum_list (map snd xs)"
  by (induction xs arbitrary: a) (simp_all add: split_beta add.assoc)

lemma fold_lang_out:
  "fold (\<lambda>(lang, count) out. out @ [f lang count]) xs acc =
     acc @ map (\<lambda>(lang, count). f lang count) xs"
  by (induction xs arbitrary: acc) (simp_all add: split_beta)

lemma collectLanguageInfo_eq:
  "collectLanguageInfo rt bt owner repository =
     createListMapStr
       (map (language_entry (sum_list (map snd (range_first rt (fst (ListLanguages (ghClient bt) owner repository))))))
          (range_second rt (fst (ListLanguages (ghClient bt) owner repository))))
       (snd (ListLanguages (ghClient bt) owner repository))"
  by (simp add: collectLanguageInfo_def fold_lang_sum fold_lang_out [where acc = "[]", simplified]
        split_beta Let_def language_entry_def)

lemma fold_downloads:
  "fold (\<lambda>release (totalDownloads, out).
           (let releaseDownloads =
                  fold (\<lambda>asset releaseDownloads. releaseDownloads + Asset_GetDownloadCount asset)
                    (Release_Assets release) 0
            in (totalDownloads + releaseDownloads,
                out @ [[''id'' \<mapsto> VInt (Release_GetID release),
                        ''name'' \<mapsto> VString (Release_GetName release),
                        ''downloads'' \<mapsto> VInt releaseDownloads]])))
     releases (t :: go_int, acc) =
   (t + sum_list (map (\<lambda>r. sum_list (map Asset_GetDownloadCount (Release_Assets r))) releases),
    acc @ map (\<lambda>r. [''id'' \<mapsto> VInt (Release_GetID r),
                     ''name'' \<mapsto> VString (Release_GetName r),
                     ''downloads'' \<mapsto> VInt (sum_list (map Asset_GetDownloadCount (Release_Assets r)))])
            releases)"
  by (induction releases arbitrary: t acc) (simp_all add: fold_plus_sum_list add.assoc Let_def)

lemma collectDownloads_eq:
  "collectDownloads bt owner repository =
     [''total_downloads'' \<mapsto>
        VInt (sum_list (map (\<lambda>r. sum_list (map Asset_GetDownloadCount (Release_Assets r)))
                (fst (ListReleases (ghClient bt) owner repository)))),
      ''releases'' \<mapsto>
        VList (map (\<lambda>r. VMapStr
                 [''id'' \<mapsto> VInt (Release_GetID r),
                  ''name'' \<mapsto> VString (Release_GetName r),
                  ''downloads'' \<mapsto> VInt (sum_list (map Asset_GetDownloadCount (Release_Assets r)))])
                (fst (ListReleases (ghClient bt) owner repository))),
      ''error'' \<mapsto> VError (snd (ListReleases (ghClient bt) owner repository))]"
  by (simp add: collectDownloads_def fold_downloads split_beta comp_def)

subsection \<open>The sections of the event\<close>

lemma nested_license:
  "nested (newFullRepoEvent rt bt repo) ''license'' =
     collectLicenseInfo bt (User_GetLogin (Repository_Owner repo)) (Repository_GetName repo)"
  by (simp add: nested_def newFullRepoEvent_def Let_def)

lemma nested_fork_list:
  "nested (newFullRepoEvent rt bt repo) ''fork_list'' =
     collectForkInfo bt (User_GetLogin (Repository_Owner repo)) (Repository_GetName repo)"
  by (simp add: nested_def newFullRepoEvent_def Let_def)

lemma nested_contributor_list:
  "nested (newFullRepoEvent rt bt repo) ''contributor_list'' =
     getContributions bt (User_GetLogin (Repository_Owner repo)) (Repository_GetName repo)"
  by (simp add: nested_def newFullRepoEvent_def Let_def)

lemma nested_branch_list:
  "nested (newFullRepoEvent rt bt repo) ''branch_list'' =
     getBranches bt (User_GetLogin (Repository_Owner repo)) (Repository_GetName repo)"
  by (simp add: nested_def newFullRepoEvent_def Let_def)

lemma nested_languages:
  "nested (newFullRepoEvent rt bt repo) ''languages'' =
     collectLanguageInfo rt bt (User_GetLogin (Repository_Owner repo)) (Repository_GetName repo)"
  by (simp add: nested_def newFullRepoEvent_def Let_def)

lemma nested_participation:
  "nested (newFullRepoEvent rt bt repo) ''participation'' =
     collectParticipation bt (User_GetLogin (Repository_Owner repo)) (Repository_GetName repo)"
  by (simp add: nested_def newFullRepoEvent_def Let_def)

lemma nested_downloads:
  "nested (newFullRepoEvent rt bt repo) ''downloads'' =
     collectDownloads bt (User_GetLogin (Repository_Owner repo)) (Repository_GetName repo)"
  by (simp add: nested_def newFullRepoEvent_def Let_def)

lemma count_is_length_createListMapStr: "count_is_length (createListMapStr xs err)"
  by (simp add: count_is_length_def createListMapStr_def)

lemma createListMapStr_nil:
  "createListMapStr [] err =
     [''count'' \<mapsto> VInt 0, ''list'' \<mapsto> VList [], ''error'' \<mapsto> VError err]"
  by (simp add: createListMapStr_def)

subsection \<open>Participation\<close>

lemma range_order_nil: "is_range_order ro \<Longrightarrow> ro [] = []"
  by (metis is_range_order_def mset_zero_iff)

lemma extractParticipationData_fields:
  "extractParticipationData p ''all'' =
     Some (VInt (case p of None \<Rightarrow> 0 | Some q \<Rightarrow> sum_list (Participation_All q)))"
  "extractParticipationData p ''owner'' =
     Some (VInt (case p of None \<Rightarrow> 0 | Some q \<Rightarrow> sum_list (Participation_Owner q)))"
  "extractParticipationData p ''community'' =
     Some (VInt ((case p of None \<Rightarrow> 0 | Some q \<Rightarrow> sum_list (Participation_All q)) -
                 (case p of None \<Rightarrow> 0 | Some q \<Rightarrow> sum_list (Participation_Owner q))))"
  by (simp_all add: extractParticipationData_def sumIntArray_sum_list split: option.splits)

lemma appendError_other: "k \<noteq> ''error'' \<Longrightarrow> appendError m err k = m k"
  by (simp add: appendError_def)

lemma collectParticipation_fields:
  assumes "ListParticipation (ghClient bt) owner repository = (p, err)"
  shows "collectParticipation bt owner repository ''all'' =
           Some (VInt (case p of None \<Rightarrow> 0 | Some q \<Rightarrow> sum_list (Participation_All q)))"
    and "collectParticipation bt owner repository ''owner'' =
           Some (VInt (case p of None \<Rightarrow> 0 | Some q \<Rightarrow> sum_list (Participation_Owner q)))"
    and "collectParticipation bt owner repository ''community'' =
           Some (VInt ((case p of None \<Rightarrow> 0 | Some q \<Rightarrow> sum_list (Participation_All q)) -
                       (case p of None \<Rightarrow> 0 | Some q \<Rightarrow> sum_list (Participation_Owner q))))"
  using assms
  by (simp_all add: collectParticipation_def appendError_other extractParticipationData_fields)

text \<open>
  C4. The participation section of an event holds, under \<open>all\<close> and \<open>owner\<close>, the sums of
  the weekly commit counts of the fetched participation, and under \<open>community\<close> the
  first minus the second, in Go's integer arithmetic. When the fetch returned no
  participation (as a failed fetch does), all three are 0.
\<close>

theorem participation_community_is_all_minus_owner:
  assumes "ListParticipation (ghClient bt) (User_GetLogin (Repository_Owner repo))
             (Repository_GetName repo) = (p, err)"
    and "a = (case p of None \<Rightarrow> 0 | Some q \<Rightarrow> sum_list (Participation_All q))"
    and "w = (case p of None \<Rightarrow> 0 | Some q \<Rightarrow> sum_list (Participation_Owner q))"
  shows "nested (newFullRepoEvent rt bt repo) ''participation'' ''all'' = Some (VInt a) \<and>
         nested (newFullRepoEvent rt bt repo) ''participation'' ''owner'' = Some (VInt w) \<and>
         nested (newFullRepoEvent rt bt repo) ''participation'' ''community'' = Some (VInt (a - w)) \<and>
         (p = None \<longrightarrow> a = 0 \<and> w = 0 \<and> a - w = 0)"
  using collectParticipation_fields [OF assms(1)] assms(2,3)
  by (simp add: nested_participation)

theorem participation_community_is_all_minus_owner_witness:
  "nested (newFullRepoEvent first_run example_bt example_repo) ''participation'' ''all'' = Some (VInt 8) \<and>
   nested (newFullRepoEvent first_run example_bt example_repo) ''participation'' ''owner'' = Some (VInt 3) \<and>
   nested (newFullRepoEvent first_run example_bt example_repo) ''participation'' ''community'' = Some (VInt 5) \<and>
   nested (newFullRepoEvent first_run failing_bt example_repo) ''participation'' ''all'' = Some (VInt 0) \<and>
   nested (newFullRepoEvent first_run failing_bt example_repo) ''participation'' ''owner'' = Some (VInt 0) \<and>
   nested (newFullRepoEvent first_run failing_bt example_repo) ''participation'' ''community'' = Some (VInt 0)"
proof -
  have ok: "ListParticipation (ghClient example_bt) (User_GetLogin (Repository_Owner example_repo))
              (Repository_GetName example_repo) =
            (Some \<lparr>Participation_All = [5, 3, 0], Participation_Owner = [2, 1, 0]\<rparr>, None)"
    by (simp add: example_bt_def example_client_def)
  have ko: "ListParticipation (ghClient failing_bt) (User_GetLogin (Repository_Owner example_repo))
              (Repository_GetName example_repo) = (None, Some timed_out)"
    by (simp add: failing_bt_def)
  from participation_community_is_all_minus_owner [OF ok refl refl, of first_run]
       participation_community_is_all_minus_owner [OF ko refl refl, of first_run]
  show ?thesis by simp
qed

subsection \<open>Downloads\<close>

text \<open>
  C6. The downloads section of an event holds, under \<open>total_downloads\<close>, the sum over the
  fetched releases of the sum of the download counts of the release's assets, and under
  \<open>releases\<close> one entry per release, in the order of the fetch, with the release's id, its
  name and the sum of the download counts of its own assets.
\<close>

theorem downloads_total_and_entries:
  "nested (newFullRepoEvent rt bt repo) ''downloads'' ''total_downloads'' =
     Some (VInt (sum_list (map (\<lambda>r. sum_list (map Asset_GetDownloadCount (Release_Assets r)))
       (fst (ListReleases (ghClient bt) (User_GetLogin (Repository_Owner repo)) (Repository_GetName repo)))))) \<and>
   nested (newFullRepoEvent rt bt repo) ''downloads'' ''releases'' =
     Some (VList (map (\<lambda>r. VMapStr
             [''id'' \<mapsto> VInt (Release_GetID r),
              ''name'' \<mapsto> VString (Release_GetName r),
              ''downloads'' \<mapsto> VInt (sum_list (map Asset_GetDownloadCount (Release_Assets r)))])
       (fst (ListReleases (ghClient bt) (User_GetLogin (Repository_Owner repo)) (Repository_GetName repo)))))"
  by (simp add: nested_downloads collectDownloads_eq)

theorem downloads_total_and_entries_example:
  "nested (newFullRepoEvent first_run example_bt example_repo) ''downloads'' ''total_downloads'' =
     Some (VInt 22) \<and>
   nested (newFullRepoEvent first_run example_bt example_repo) ''downloads'' ''releases'' =
     Some (VList
       [VMapStr [''id'' \<mapsto> VInt 1, ''name'' \<mapsto> VString ''v1.0'', ''downloads'' \<mapsto> VInt 15],
        VMapStr [''id'' \<mapsto> VInt 2, ''name'' \<mapsto> VString ''v1.1'', ''downloads'' \<mapsto> VInt 7]])"
  using downloads_total_and_entries [of first_run example_bt example_repo]
  by (simp add: example_bt_def example_client_def)

subsection \<open>List-shaped sections\<close>

text \<open>
  C10. In every event, each of the sections \<open>fork_list\<close>, \<open>contributor_list\<close>,
  \<open>branch_list\<close> and \<open>languages\<close> has a \<open>count\<close> equal to the length of its \<open>list\<close>.
  When the fetch of the contributors or of the branches returns an error, and when the
  fetch of the forks or of the languages returns an error with a nil value, the section
  has count 0, an empty list and that error.
\<close>

theorem list_sections_count_is_length:
  assumes "owner = User_GetLogin (Repository_Owner repo)"
    and "repository = Repository_GetName repo"
    and "failed = (\<lambda>x. [''count'' \<mapsto> VInt 0, ''list'' \<mapsto> VList [], ''error'' \<mapsto> VError (Some x)])"
  shows "count_is_length (nested (newFullRepoEvent rt bt repo) ''fork_list'') \<and>
         count_is_length (nested (newFullRepoEvent rt bt repo) ''contributor_list'') \<and>
         count_is_length (nested (newFullRepoEvent rt bt repo) ''branch_list'') \<and>
         count_is_length (nested (newFullRepoEvent rt bt repo) ''languages'') \<and>
         (\<forall>x. ListForks (ghClient bt) owner repository = ([], Some x) \<longrightarrow>
              nested (newFullRepoEvent rt bt repo) ''fork_list'' = failed x) \<and>
         (\<forall>x. snd (ListContributors (ghClient bt) owner repository) = Some x \<longrightarrow>
              nested (newFullRepoEvent rt bt repo) ''contributor_list'' = failed x) \<and>
         (\<forall>x. snd (ListBranches (ghClient bt) owner repository) = Some x \<longrightarrow>
              nested (newFullRepoEvent rt bt repo) ''branch_list'' = failed x) \<and>
         (\<forall>x. ListLanguages (ghClient bt) owner repository = ([], Some x) \<and>
              is_range_order (range_second rt) \<longrightarrow>
              nested (newFullRepoEvent rt bt repo) ''languages'' = failed x)"
  using assms
  by (simp add: nested_fork_list nested_contributor_list nested_branch_list nested_languages
        collectForkInfo_eq getContributions_eq getBranches_eq collectLanguageInfo_eq
        count_is_length_createListMapStr createListMapStr_nil range_order_nil)

theorem list_sections_count_is_length_witness:
  "count_is_length (nested (newFullRepoEvent first_run example_bt example_repo) ''fork_list'') \<and>
   count_is_length (nested (newFullRepoEvent first_run example_bt example_repo) ''contributor_list'') \<and>
   count_is_length (nested (newFullRepoEvent first_run example_bt example_repo) ''branch_list'') \<and>
   count_is_length (nested (newFullRepoEvent first_run example_bt example_repo) ''languages'') \<and>
   nested (newFullRepoEvent second_run failing_bt example_repo) ''fork_list'' =
     [''count'' \<mapsto> VInt 0, ''list'' \<mapsto> VList [], ''error'' \<mapsto> VError (Some timed_out)] \<and>
   nested (newFullRepoEvent second_run failing_bt example_repo) ''contributor_list'' =
     [''count'' \<mapsto> VInt 0, ''list'' \<mapsto> VList [], ''error'' \<mapsto> VError (Some timed_out)] \<and>
   nested (newFullRepoEvent second_run failing_bt example_repo) ''branch_list'' =
     [''count'' \<mapsto> VInt 0, ''list'' \<mapsto> VList [], ''error'' \<mapsto> VError (Some timed_out)] \<and>
   nested (newFullRepoEvent second_run failing_bt example_repo) ''languages'' =
     [''count'' \<mapsto> VInt 0, ''list'' \<mapsto> VList [], ''error'' \<mapsto> VError (Some timed_out)]"
proof -
  have ro: "is_range_order (range_second second_run)"
    by (simp add: second_run_def is_range_order_def)
  from list_sections_count_is_length [OF refl refl refl, of first_run example_bt example_repo]
       list_sections_count_is_length [OF refl refl refl, of second_run failing_bt example_repo] ro
  show ?thesis
    by (simp add: failing_bt_def)
qed

subsection \<open>Repository targets\<close>

lemma Split_not_Nil: "Split s sep \<noteq> []"
  by (induction s) (auto split: list.splits)

lemma Split_length: "length (Split s sep) = Suc (count_list s sep)"
  by (induction s) (auto split: list.splits simp: Split_not_Nil)

lemma Split_no_sep: "sep \<notin> set s \<Longrightarrow> Split s sep = [s]"
  by (induction s) auto

lemma Split_append: "sep \<notin> set a \<Longrightarrow> Split (a @ sep # b) sep = a # Split b sep"
  by (induction a) auto

lemma Split_two: "sep \<notin> set a \<Longrightarrow> sep \<notin> set b \<Longrightarrow> Split (a @ sep # b) sep = [a, b]"
  by (simp add: Split_append Split_no_sep)

lemma Split_two_conv:
  "Split s sep = [a, b] \<Longrightarrow> s = a @ sep # b \<and> sep \<notin> set a \<and> sep \<notin> set b"
proof (induction s arbitrary: a)
  case Nil
  then show ?case by simp
next
  case (Cons c s)
  show ?case
  proof (cases "c = sep")
    case True
    with Cons.prems have a: "a = []" and sb: "Split s sep = [b]" by simp_all
    from sb have "count_list s sep = 0"
      using Split_length [of s sep] by simp
    then have nb: "sep \<notin> set s" by (simp add: count_list_0_iff)
    with sb have "b = s" by (simp add: Split_no_sep)
    with a True nb show ?thesis by simp
  next
    case False
    with Cons.prems obtain p where sp: "Split s sep = [p, b]" and a: "a = c # p"
      by (auto split: list.splits)
    from Cons.IH [OF sp] a False show ?thesis by simp
  qed
qed

lemma collectRepoEvent_two:
  assumes "Split repo CHR ''/'' = [ow, nm]"
  shows "collectRepoEvent rt bt repo =
           (case Get (ghClient bt) ow nm of
              (res, Some x) \<Rightarrow> FailedToCollect x
            | (None, None) \<Rightarrow> NilDereference
            | (Some rp, None) \<Rightarrow> PublishEvent (newFullRepoEvent rt bt rp))"
  using assms by (simp add: collectRepoEvent_def split: prod.splits option.splits)

lemma collectRepoEvent_invalid:
  "length (Split repo CHR ''/'') \<noteq> 2 \<Longrightarrow> collectRepoEvent rt bt repo = InvalidRepoName repo"
  by (simp add: collectRepoEvent_def)

lemma collectRepoEvent_valid:
  "length (Split repo CHR ''/'') = 2 \<Longrightarrow> collectRepoEvent rt bt repo \<noteq> InvalidRepoName repo"
  by (simp add: collectRepoEvent_def Let_def split: prod.splits option.splits)

lemma collectReposEvents_nth:
  "i < length repos \<Longrightarrow>
     collectReposEvents rts bt repos ! i = collectRepoEvent (rts i) bt (repos ! i)"
  by (simp add: collectReposEvents_def nth_enumerate_eq)

lemma collectReposEvents_length: "length (collectReposEvents rts bt repos) = length repos"
  by (simp add: collectReposEvents_def)

text \<open>
  C1 (as amended). A target that splits on the separator into exactly two parts, that is
  a target \<open>ow/nm\<close> with no separator in \<open>ow\<close> or in \<open>nm\<close> (either may be empty), is
  fetched with owner \<open>ow\<close> and name \<open>nm\<close>, and its outcome is that of the fetch. A format
  error is recorded for a target exactly when it does not split into two parts (it splits
  into one part, or into three or more), and then nothing is fetched. The outcome of each
  target of a batch is that of the target alone.
\<close>

theorem repo_target_format:
  "(\<forall>ow nm. Split repo CHR ''/'' = [ow, nm] \<longrightarrow>
      collectRepoEvent rt bt repo =
        (case Get (ghClient bt) ow nm of
           (res, Some x) \<Rightarrow> FailedToCollect x
         | (None, None) \<Rightarrow> NilDereference
         | (Some rp, None) \<Rightarrow> PublishEvent (newFullRepoEvent rt bt rp))) \<and>
   (\<forall>ow nm. Split repo CHR ''/'' = [ow, nm] \<longleftrightarrow>
      repo = ow @ ''/'' @ nm \<and> CHR ''/'' \<notin> set ow \<and> CHR ''/'' \<notin> set nm) \<and>
   (collectRepoEvent rt bt repo = InvalidRepoName repo \<longleftrightarrow> length (Split repo CHR ''/'') \<noteq> 2) \<and>
   length (Split repo CHR ''/'') = Suc (count_list repo CHR ''/'') \<and>
   length (collectReposEvents rts bt repos) = length repos \<and>
   (\<forall>i < length repos.
      collectReposEvents rts bt repos ! i = collectRepoEvent (rts i) bt (repos ! i))"
proof -
  have 1: "\<forall>ow nm. Split repo CHR ''/'' = [ow, nm] \<longrightarrow>
      collectRepoEvent rt bt repo =
        (case Get (ghClient bt) ow nm of
           (res, Some x) \<Rightarrow> FailedToCollect x
         | (None, None) \<Rightarrow> NilDereference
         | (Some rp, None) \<Rightarrow> PublishEvent (newFullRepoEvent rt bt rp))"
    using collectRepoEvent_two by blast
  have 2: "\<forall>ow nm. Split repo CHR ''/'' = [ow, nm] \<longleftrightarrow>
      repo = ow @ ''/'' @ nm \<and> CHR ''/'' \<notin> set ow \<and> CHR ''/'' \<notin> set nm"
    using Split_two [of "CHR ''/''"] Split_two_conv [of repo "CHR ''/''"] by auto
  have 3: "collectRepoEvent rt bt repo = InvalidRepoName repo \<longleftrightarrow> length (Split repo CHR ''/'') \<noteq> 2"
    using collectRepoEvent_invalid [of repo rt bt] collectRepoEvent_valid [of repo rt bt] by blast
  have 4: "length (Split repo CHR ''/'') = Suc (count_list repo CHR ''/'')"
    by (rule Split_length)
  have 5: "\<forall>i < length repos.
      collectReposEvents rts bt repos ! i = collectRepoEvent (rts i) bt (repos ! i)"
    by (simp add: collectReposEvents_nth)
  from 1 2 3 4 5 show ?thesis
    using collectReposEvents_length by blast
qed

theorem repo_target_format_witness:
  "collectRepoEvent first_run example_bt ''octocat/Hello-World'' =
     PublishEvent (newFullRepoEvent first_run example_bt example_repo) \<and>
   collectRepoEvent first_run example_bt ''badformat'' = InvalidRepoName ''badformat'' \<and>
   collectRepoEvent first_run example_bt ''a/b/c'' = InvalidRepoName ''a/b/c'' \<and>
   collectReposEvents (\<lambda>i. first_run) example_bt [''badformat'', ''octocat/Hello-World''] =
     [InvalidRepoName ''badformat'',
      PublishEvent (newFullRepoEvent first_run example_bt example_repo)]"
proof -
  have s: "Split ''octocat/Hello-World'' CHR ''/'' = [''octocat'', ''Hello-World'']"
    by simp
  have g: "Get (ghClient example_bt) ''octocat'' ''Hello-World'' = (Some example_repo, None)"
    by (simp add: example_bt_def example_client_def)
  have 1: "collectRepoEvent first_run example_bt ''octocat/Hello-World'' =
     PublishEvent (newFullRepoEvent first_run example_bt example_repo)"
    using repo_target_format [of "''octocat/Hello-World''" first_run example_bt "\<lambda>i. first_run" "[]"]
      s g
    by simp
  have 2: "collectRepoEvent first_run example_bt ''badformat'' = InvalidRepoName ''badformat''"
    using repo_target_format [of "''badformat''" first_run example_bt "\<lambda>i. first_run" "[]"]
    by simp
  have 3: "collectRepoEvent first_run example_bt ''a/b/c'' = InvalidRepoName ''a/b/c''"
    using repo_target_format [of "''a/b/c''" first_run example_bt "\<lambda>i. first_run" "[]"]
    by simp
  have "length (collectReposEvents (\<lambda>i. first_run) example_bt [''badformat'', ''octocat/Hello-World'']) = 2 \<and>
        collectReposEvents (\<lambda>i. first_run) example_bt [''badformat'', ''octocat/Hello-World''] ! 0 =
          collectRepoEvent first_run example_bt ''badformat'' \<and>
        collectReposEvents (\<lambda>i. first_run) example_bt [''badformat'', ''octocat/Hello-World''] ! 1 =
          collectRepoEvent first_run example_bt ''octocat/Hello-World''"
    using repo_target_format [of "''x''" first_run example_bt "\<lambda>i. first_run"
        "[''badformat'', ''octocat/Hello-World'']"]
    by (simp add: less_Suc_eq all_conj_distrib)
  with 1 2 3 show ?thesis
    by (simp add: list_eq_iff_nth_eq numeral_2_eq_2 less_Suc_eq all_conj_distrib)
qed

theorem repo_target_empty_part_counterexample:
  "Split ''octocat/'' CHR ''/'' = [''octocat'', ''''] \<and>
   collectRepoEvent first_run example_bt ''octocat/'' = FailedToCollect not_found \<and>
   collectRepoEvent first_run example_bt ''octocat/'' \<noteq> InvalidRepoName ''octocat/''"
  by (simp add: collectRepoEvent_def example_bt_def example_client_def)

subsection \<open>Publishing\<close>

lemma newFullRepoEvent_base:
  "newFullRepoEvent rt bt repo ''repo'' = Some (VString (Repository_GetName repo))"
  "newFullRepoEvent rt bt repo ''owner'' = Some (VString (User_GetLogin (Repository_Owner repo)))"
  by (simp_all add: newFullRepoEvent_def Let_def extractRepoData_def)

lemma newFullRepoEvent_sections:
  "k \<in> {''license'', ''fork_list'', ''contributor_list'', ''branch_list'', ''languages'',
         ''participation'', ''downloads''} \<Longrightarrow> \<exists>m. newFullRepoEvent rt bt repo k = Some (VMapStr m)"
  by (auto simp add: newFullRepoEvent_def Let_def)

text \<open>
  C3. For a target \<open>ow/nm\<close>, an event is published exactly when the fetch of the
  repository returns the repository and no error. When the fetch returns an error, that
  error is reported for the target and nothing is published. When the fetch succeeds,
  the published event is the full event of the repository, with its base fields and its
  seven sections, whatever the fetches of the sections return.
\<close>

theorem event_iff_base_fetch_succeeds:
  assumes "CHR ''/'' \<notin> set ow" and "CHR ''/'' \<notin> set nm"
  shows "((\<exists>e. collectRepoEvent rt bt (ow @ ''/'' @ nm) = PublishEvent e) \<longleftrightarrow>
           (\<exists>rp. Get (ghClient bt) ow nm = (Some rp, None))) \<and>
         (\<forall>x. snd (Get (ghClient bt) ow nm) = Some x \<longrightarrow>
            collectRepoEvent rt bt (ow @ ''/'' @ nm) = FailedToCollect x) \<and>
         (\<forall>rp. Get (ghClient bt) ow nm = (Some rp, None) \<longrightarrow>
            collectRepoEvent rt bt (ow @ ''/'' @ nm) = PublishEvent (newFullRepoEvent rt bt rp) \<and>
            newFullRepoEvent rt bt rp ''repo'' = Some (VString (Repository_GetName rp)) \<and>
            newFullRepoEvent rt bt rp ''owner'' = Some (VString (User_GetLogin (Repository_Owner rp))) \<and>
            (\<forall>k \<in> {''license'', ''fork_list'', ''contributor_list'', ''branch_list'', ''languages'',
                    ''participation'', ''downloads''}.
               \<exists>m. newFullRepoEvent rt bt rp k = Some (VMapStr m)))"
proof -
  have eq: "collectRepoEvent rt bt (ow @ ''/'' @ nm) =
           (case Get (ghClient bt) ow nm of
              (res, Some x) \<Rightarrow> FailedToCollect x
            | (None, None) \<Rightarrow> NilDereference
            | (Some rp, None) \<Rightarrow> PublishEvent (newFullRepoEvent rt bt rp))"
    using collectRepoEvent_two [OF Split_two [OF assms]] by simp
  obtain res err where g: "Get (ghClient bt) ow nm = (res, err)"
    by (cases "Get (ghClient bt) ow nm")
  have 1: "(\<exists>e. collectRepoEvent rt bt (ow @ ''/'' @ nm) = PublishEvent e) \<longleftrightarrow>
           (\<exists>rp. Get (ghClient bt) ow nm = (Some rp, None))"
    unfolding eq g by (cases res; cases err) simp_all
  have 2: "\<forall>x. snd (Get (ghClient bt) ow nm) = Some x \<longrightarrow>
            collectRepoEvent rt bt (ow @ ''/'' @ nm) = FailedToCollect x"
    unfolding eq g by (cases res) simp_all
  have 3: "\<forall>rp. Get (ghClient bt) ow nm = (Some rp, None) \<longrightarrow>
            collectRepoEvent rt bt (ow @ ''/'' @ nm) = PublishEvent (newFullRepoEvent rt bt rp)"
    unfolding eq by simp
  from 1 2 3 show ?thesis
    using newFullRepoEvent_base newFullRepoEvent_sections by blast
qed

theorem event_iff_base_fetch_succeeds_witness:
  "collectRepoEvent first_run failing_bt ''octocat/Hello-World'' =
     PublishEvent (newFullRepoEvent first_run failing_bt example_repo) \<and>
   newFullRepoEvent first_run failing_bt example_repo ''repo'' = Some (VString ''Hello-World'') \<and>
   newFullRepoEvent first_run failing_bt example_repo ''owner'' = Some (VString ''octocat'') \<and>
   (\<exists>m. newFullRepoEvent first_run failing_bt example_repo ''license'' = Some (VMapStr m)) \<and>
   (\<exists>m. newFullRepoEvent first_run failing_bt example_repo ''downloads'' = Some (VMapStr m)) \<and>
   collectRepoEvent first_run example_bt ''octocat/Spoon-Knife'' = FailedToCollect not_found \<and>
   (\<nexists>e. collectRepoEvent first_run example_bt ''octocat/Spoon-Knife'' = PublishEvent e)"
proof -
  have a: "CHR ''/'' \<notin> set ''octocat''" and b: "CHR ''/'' \<notin> set ''Hello-World''"
    and c: "CHR ''/'' \<notin> set ''Spoon-Knife''"
    by simp_all
  have ok: "Get (ghClient failing_bt) ''octocat'' ''Hello-World'' = (Some example_repo, None)"
    by (simp add: failing_bt_def example_client_def)
  have ko: "Get (ghClient example_bt) ''octocat'' ''Spoon-Knife'' = (None, Some not_found)"
    by (simp add: example_bt_def example_client_def)
  from event_iff_base_fetch_succeeds [OF a b, of first_run failing_bt] ok
  have 1: "collectRepoEvent first_run failing_bt ''octocat/Hello-World'' =
     PublishEvent (newFullRepoEvent first_run failing_bt example_repo) \<and>
   newFullRepoEvent first_run failing_bt example_repo ''repo'' = Some (VString ''Hello-World'') \<and>
   newFullRepoEvent first_run failing_bt example_repo ''owner'' = Some (VString ''octocat'') \<and>
   (\<exists>m. newFullRepoEvent first_run failing_bt example_repo ''license'' = Some (VMapStr m)) \<and>
   (\<exists>m. newFullRepoEvent first_run failing_bt example_repo ''downloads'' = Some (VMapStr m))"
    by (simp add: example_repo_def User_GetLogin_def)
  from event_iff_base_fetch_succeeds [OF a c, of first_run example_bt] ko
  have 2: "collectRepoEvent first_run example_bt ''octocat/Spoon-Knife'' = FailedToCollect not_found \<and>
   (\<nexists>e. collectRepoEvent first_run example_bt ''octocat/Spoon-Knife'' = PublishEvent e)"
    by simp
  from 1 2 show ?thesis by simp
qed

subsection \<open>Organizations\<close>

lemma collectOrgsEvents_length: "length (collectOrgsEvents rts bt orgs) = length orgs"
  by (simp add: collectOrgsEvents_def)

lemma collectOrgsEvents_nth:
  "i < length orgs \<Longrightarrow> collectOrgsEvents rts bt orgs ! i = collectOrgEvents (rts i) bt (orgs ! i)"
  by (simp add: collectOrgsEvents_def nth_enumerate_eq)

lemma collectOrgEvents_ok:
  "ListByOrg (ghClient bt) org = (repos, None) \<Longrightarrow>
     collectOrgEvents rts bt org =
       PublishEvents (map (\<lambda>(j, repo). newFullRepoEvent (rts j) bt repo) (enumerate 0 repos))"
  by (simp add: collectOrgEvents_def)

lemma collectOrgEvents_failed:
  "ListByOrg (ghClient bt) org = (repos, Some x) \<Longrightarrow> collectOrgEvents rts bt org = FailedListing x"
  by (simp add: collectOrgEvents_def)

text \<open>
  C7. Every configured organization has its own outcome. When the listing of an
  organization returns no error, one event is published for each repository of the
  listing: the full event of that repository. When the listing returns an error, the
  error is reported and no event is published for that organization, whatever the
  listing holds; the outcomes of the other organizations are not affected.
\<close>

theorem org_listing_events:
  "length (collectOrgsEvents rts bt orgs) = length orgs \<and>
   (\<forall>i < length orgs. \<forall>repos. ListByOrg (ghClient bt) (orgs ! i) = (repos, None) \<longrightarrow>
      (\<exists>events. collectOrgsEvents rts bt orgs ! i = PublishEvents events \<and>
         length events = length repos \<and>
         (\<forall>j < length repos.
            events ! j = newFullRepoEvent (rts i j) bt (repos ! j) \<and>
            (events ! j) ''repo'' = Some (VString (Repository_GetName (repos ! j))) \<and>
            (events ! j) ''owner'' = Some (VString (User_GetLogin (Repository_Owner (repos ! j))))))) \<and>
   (\<forall>i < length orgs. \<forall>repos x. ListByOrg (ghClient bt) (orgs ! i) = (repos, Some x) \<longrightarrow>
      collectOrgsEvents rts bt orgs ! i = FailedListing x)"
  by (simp add: collectOrgsEvents_length collectOrgsEvents_nth collectOrgEvents_ok
        collectOrgEvents_failed nth_enumerate_eq newFullRepoEvent_base)

theorem org_listing_events_witness:
  "collectOrgsEvents (\<lambda>i j. first_run) example_bt [''nobody'', ''octocat''] =
     [FailedListing not_found,
      PublishEvents [newFullRepoEvent first_run example_bt example_repo,
                     newFullRepoEvent first_run example_bt example_fork]]"
proof -
  let ?out = "collectOrgsEvents (\<lambda>i j. first_run) example_bt [''nobody'', ''octocat'']"
  have ko: "ListByOrg (ghClient example_bt) ([''nobody'', ''octocat''] ! 0) = ([], Some not_found)"
    by (simp add: example_bt_def example_client_def)
  have ok: "ListByOrg (ghClient example_bt) ([''nobody'', ''octocat''] ! 1) =
              ([example_repo, example_fork], None)"
    by (simp add: example_bt_def example_client_def)
  note t = org_listing_events [of "\<lambda>i j. first_run" example_bt "[''nobody'', ''octocat'']"]
  from t have len: "length ?out = 2" by simp
  from t ko have 0: "?out ! 0 = FailedListing not_found" by simp
  from t ok obtain events where e: "?out ! 1 = PublishEvents events" "length events = 2"
    "events ! 0 = newFullRepoEvent first_run example_bt example_repo"
    "events ! 1 = newFullRepoEvent first_run example_bt example_fork"
    by (auto simp add: numeral_2_eq_2 less_Suc_eq all_conj_distrib)
  from e(2-4) have "events = [newFullRepoEvent first_run example_bt example_repo,
                     newFullRepoEvent first_run example_bt example_fork]"
    by (simp add: list_eq_iff_nth_eq numeral_2_eq_2 less_Suc_eq all_conj_distrib)
  with len 0 e(1) show ?thesis
    by (simp add: list_eq_iff_nth_eq numeral_2_eq_2 less_Suc_eq all_conj_distrib)
qed

subsection \<open>A failing license fetch\<close>

lemma collectLicenseInfo_error:
  "License (ghClient bt) owner repository = (l, Some x) \<Longrightarrow>
     collectLicenseInfo bt owner repository ''error'' = Some (VError (Some x))"
  by (simp add: collectLicenseInfo_def appendError_def)

lemma collectParticipation_ok:
  "ListParticipation (ghClient bt) owner repository = (Some p, None) \<Longrightarrow>
     collectParticipation bt owner repository =
       [''all'' \<mapsto> VInt (sum_list (Participation_All p)),
        ''owner'' \<mapsto> VInt (sum_list (Participation_Owner p)),
        ''community'' \<mapsto> VInt (sum_list (Participation_All p) - sum_list (Participation_Owner p)),
        ''period'' \<mapsto> VString ''year'']"
  by (simp add: collectParticipation_def appendError_def extractParticipationData_def
        sumIntArray_sum_list)

lemma newFullRepoEvent_License_update:
  "k \<noteq> ''license'' \<Longrightarrow>
     newFullRepoEvent rt (bt\<lparr>ghClient := (ghClient bt)\<lparr>License := f\<rparr>\<rparr>) repo k =
     newFullRepoEvent rt bt repo k"
  by (simp add: newFullRepoEvent_def Let_def collectForkInfo_def getContributions_def
        getBranches_def collectLanguageInfo_def collectParticipation_def collectDownloads_def)

text \<open>
  C5. When the fetch of the license returns an error and the six other fetches return
  no error, the license section of the event holds that error under \<open>error\<close>, and every
  other section holds the data of its own fetch with a nil error (the participation
  section has no \<open>error\<close> key at all). No key of the event other than \<open>license\<close> depends
  on what the fetch of the license returns.
\<close>

theorem license_failure_is_contained:
  assumes "owner = User_GetLogin (Repository_Owner repo)"
    and "repository = Repository_GetName repo"
    and "e = newFullRepoEvent rt bt repo"
    and "License (ghClient bt) owner repository = (l, Some x)"
    and "ListForks (ghClient bt) owner repository = (forks, None)"
    and "ListContributors (ghClient bt) owner repository = (contributors, None)"
    and "ListBranches (ghClient bt) owner repository = (branches, None)"
    and "ListLanguages (ghClient bt) owner repository = (langs, None)"
    and "ListParticipation (ghClient bt) owner repository = (Some p, None)"
    and "ListReleases (ghClient bt) owner repository = (releases, None)"
  shows "nested e ''license'' ''error'' = Some (VError (Some x)) \<and>
         nested e ''fork_list'' =
           [''count'' \<mapsto> VInt (of_nat (length forks)),
            ''list'' \<mapsto> VList (map (\<lambda>r. VMapStr (extractRepoData r)) forks),
            ''error'' \<mapsto> VError None] \<and>
         nested e ''contributor_list'' =
           [''count'' \<mapsto> VInt (of_nat (length contributors)),
            ''list'' \<mapsto> VList (map (\<lambda>c. VMapStr
                [''name'' \<mapsto> VString (Contributor_GetLogin c),
                 ''contributions'' \<mapsto> VInt (Contributor_GetContributions c)]) contributors),
            ''error'' \<mapsto> VError None] \<and>
         nested e ''branch_list'' =
           [''count'' \<mapsto> VInt (of_nat (length branches)),
            ''list'' \<mapsto> VList (map (\<lambda>b. VMapStr
                [''name'' \<mapsto> VString (Branch_GetName b),
                 ''sha'' \<mapsto> VString (Commit_GetSHA (Branch_Commit b))]) branches),
            ''error'' \<mapsto> VError None] \<and>
         nested e ''languages'' =
           [''count'' \<mapsto> VInt (of_nat (length (range_second rt langs))),
            ''list'' \<mapsto> VList (map (\<lambda>entry. VMapStr
                (language_entry (sum_list (map snd (range_first rt langs))) entry))
                (range_second rt langs)),
            ''error'' \<mapsto> VError None] \<and>
         nested e ''participation'' =
           [''all'' \<mapsto> VInt (sum_list (Participation_All p)),
            ''owner'' \<mapsto> VInt (sum_list (Participation_Owner p)),
            ''community'' \<mapsto> VInt (sum_list (Participation_All p) - sum_list (Participation_Owner p)),
            ''period'' \<mapsto> VString ''year''] \<and>
         nested e ''downloads'' =
           [''total_downloads'' \<mapsto>
              VInt (sum_list (map (\<lambda>r. sum_list (map Asset_GetDownloadCount (Release_Assets r))) releases)),
            ''releases'' \<mapsto>
              VList (map (\<lambda>r. VMapStr
                 [''id'' \<mapsto> VInt (Release_GetID r),
                  ''name'' \<mapsto> VString (Release_GetName r),
                  ''downloads'' \<mapsto> VInt (sum_list (map Asset_GetDownloadCount (Release_Assets r)))])
                releases),
            ''error'' \<mapsto> VError None] \<and>
         (\<forall>f k. k \<noteq> ''license'' \<longrightarrow>
            newFullRepoEvent rt (bt\<lparr>ghClient := (ghClient bt)\<lparr>License := f\<rparr>\<rparr>) repo k = e k)"
proof -
  have 1: "nested e ''license'' ''error'' = Some (VError (Some x))"
    using assms by (simp add: nested_license collectLicenseInfo_error)
  have 2: "nested e ''fork_list'' =
           [''count'' \<mapsto> VInt (of_nat (length forks)),
            ''list'' \<mapsto> VList (map (\<lambda>r. VMapStr (extractRepoData r)) forks),
            ''error'' \<mapsto> VError None]"
    using assms by (simp add: nested_fork_list collectForkInfo_eq createListMapStr_def comp_def)
  have 3: "nested e ''contributor_list'' =
           [''count'' \<mapsto> VInt (of_nat (length contributors)),
            ''list'' \<mapsto> VList (map (\<lambda>c. VMapStr
                [''name'' \<mapsto> VString (Contributor_GetLogin c),
                 ''contributions'' \<mapsto> VInt (Contributor_GetContributions c)]) contributors),
            ''error'' \<mapsto> VError None]"
    using assms
    by (simp add: nested_contributor_list getContributions_eq createListMapStr_def comp_def)
  have 4: "nested e ''branch_list'' =
           [''count'' \<mapsto> VInt (of_nat (length branches)),
            ''list'' \<mapsto> VList (map (\<lambda>b. VMapStr
                [''name'' \<mapsto> VString (Branch_GetName b),
                 ''sha'' \<mapsto> VString (Commit_GetSHA (Branch_Commit b))]) branches),
            ''error'' \<mapsto> VError None]"
    using assms by (simp add: nested_branch_list getBranches_eq createListMapStr_def comp_def)
  have 5: "nested e ''languages'' =
           [''count'' \<mapsto> VInt (of_nat (length (range_second rt langs))),
            ''list'' \<mapsto> VList (map (\<lambda>entry. VMapStr
                (language_entry (sum_list (map snd (range_first rt langs))) entry))
                (range_second rt langs)),
            ''error'' \<mapsto> VError None]"
    using assms
    by (simp add: nested_languages collectLanguageInfo_eq createListMapStr_def comp_def)
  have 6: "nested e ''participation'' =
           [''all'' \<mapsto> VInt (sum_list (Participation_All p)),
            ''owner'' \<mapsto> VInt (sum_list (Participation_Owner p)),
            ''community'' \<mapsto> VInt (sum_list (Participation_All p) - sum_list (Participation_Owner p)),
            ''period'' \<mapsto> VString ''year'']"
    using assms by (simp add: nested_participation collectParticipation_ok)
  have 7: "nested e ''downloads'' =
           [''total_downloads'' \<mapsto>
              VInt (sum_list (map (\<lambda>r. sum_list (map Asset_GetDownloadCount (Release_Assets r))) releases)),
            ''releases'' \<mapsto>
              VList (map (\<lambda>r. VMapStr
                 [''id'' \<mapsto> VInt (Release_GetID r),
                  ''name'' \<mapsto> VString (Release_GetName r),
                  ''downloads'' \<mapsto> VInt (sum_list (map Asset_GetDownloadCount (Release_Assets r)))])
                releases),
            ''error'' \<mapsto> VError None]"
    using assms by (simp add: nested_downloads collectDownloads_eq)
  have 8: "\<forall>f k. k \<noteq> ''license'' \<longrightarrow>
            newFullRepoEvent rt (bt\<lparr>ghClient := (ghClient bt)\<lparr>License := f\<rparr>\<rparr>) repo k = e k"
    using assms(3) by (simp add: newFullRepoEvent_License_update)
  from 1 2 3 4 5 6 7 8 show ?thesis by blast
qed

theorem license_failure_is_contained_witness:
  "nested (newFullRepoEvent first_run no_license_bt example_repo) ''license'' ''error'' =
     Some (VError (Some not_found)) \<and>
   nested (newFullRepoEvent first_run no_license_bt example_repo) ''fork_list'' =
     [''count'' \<mapsto> VInt 1,
      ''list'' \<mapsto> VList [VMapStr (extractRepoData example_fork)],
      ''error'' \<mapsto> VError None] \<and>
   nested (newFullRepoEvent first_run no_license_bt example_repo) ''branch_list'' =
     [''count'' \<mapsto> VInt 1,
      ''list'' \<mapsto> VList [VMapStr [''name'' \<mapsto> VString ''master'', ''sha'' \<mapsto> VString ''7fd1a60'']],
      ''error'' \<mapsto> VError None] \<and>
   nested (newFullRepoEvent first_run no_license_bt example_repo) ''participation'' =
     [''all'' \<mapsto> VInt 8, ''owner'' \<mapsto> VInt 3, ''community'' \<mapsto> VInt 5,
      ''period'' \<mapsto> VString ''year''] \<and>
   nested (newFullRepoEvent first_run no_license_bt example_repo) ''downloads'' ''error'' =
     Some (VError None) \<and>
   newFullRepoEvent first_run example_bt example_repo ''languages'' =
     newFullRepoEvent first_run no_license_bt example_repo ''languages''"
proof -
  let ?o = "User_GetLogin (Repository_Owner example_repo)"
  let ?r = "Repository_GetName example_repo"
  have l: "License (ghClient no_license_bt) ?o ?r = (None, Some not_found)"
    by (simp add: no_license_bt_def)
  have f: "ListForks (ghClient no_license_bt) ?o ?r = ([example_fork], None)"
    by (simp add: no_license_bt_def example_client_def)
  have c: "ListContributors (ghClient no_license_bt) ?o ?r =
      ([\<lparr>Contributor_GetLogin = ''octocat'', Contributor_GetContributions = 32\<rparr>,
        \<lparr>Contributor_GetLogin = ''hubot'', Contributor_GetContributions = 4\<rparr>], None)"
    by (simp add: no_license_bt_def example_client_def)
  have b: "ListBranches (ghClient no_license_bt) ?o ?r =
      ([\<lparr>Branch_GetName = ''master'', Branch_Commit = Some \<lparr>SHA = ''7fd1a60''\<rparr>\<rparr>], None)"
    by (simp add: no_license_bt_def example_client_def)
  have g: "ListLanguages (ghClient no_license_bt) ?o ?r = ([(''Go'', 300), (''Shell'', 100)], None)"
    by (simp add: no_license_bt_def example_client_def)
  have p: "ListParticipation (ghClient no_license_bt) ?o ?r =
      (Some \<lparr>Participation_All = [5, 3, 0], Participation_Owner = [2, 1, 0]\<rparr>, None)"
    by (simp add: no_license_bt_def example_client_def)
  have d: "ListReleases (ghClient no_license_bt) ?o ?r =
      ([\<lparr>Release_GetID = 1, Release_GetName = ''v1.0'',
          Release_Assets = [\<lparr>Asset_GetDownloadCount = 10\<rparr>, \<lparr>Asset_GetDownloadCount = 5\<rparr>]\<rparr>,
        \<lparr>Release_GetID = 2, Release_GetName = ''v1.1'',
          Release_Assets = [\<lparr>Asset_GetDownloadCount = 7\<rparr>]\<rparr>], None)"
    by (simp add: no_license_bt_def example_client_def)
  have restored: "no_license_bt\<lparr>ghClient := (ghClient no_license_bt)\<lparr>License := License example_client\<rparr>\<rparr> =
      example_bt"
    by (simp add: no_license_bt_def example_bt_def)
  note t = license_failure_is_contained [OF refl refl refl l f c b g p d, of first_run]
  from t have 1: "nested (newFullRepoEvent first_run no_license_bt example_repo) ''license'' ''error'' =
     Some (VError (Some not_found))"
    by (rule conjunct1)
  from t have 2: "nested (newFullRepoEvent first_run no_license_bt example_repo) ''fork_list'' =
     [''count'' \<mapsto> VInt 1,
      ''list'' \<mapsto> VList [VMapStr (extractRepoData example_fork)],
      ''error'' \<mapsto> VError None]"
    by simp
  from t have 3: "nested (newFullRepoEvent first_run no_license_bt example_repo) ''branch_list'' =
     [''count'' \<mapsto> VInt 1,
      ''list'' \<mapsto> VList [VMapStr [''name'' \<mapsto> VString ''master'', ''sha'' \<mapsto> VString ''7fd1a60'']],
      ''error'' \<mapsto> VError None]"
    by (simp add: Commit_GetSHA_def)
  from t have 4: "nested (newFullRepoEvent first_run no_license_bt example_repo) ''participation'' =
     [''all'' \<mapsto> VInt 8, ''owner'' \<mapsto> VInt 3, ''community'' \<mapsto> VInt 5,
      ''period'' \<mapsto> VString ''year'']"
    by simp
  from t have 5: "nested (newFullRepoEvent first_run no_license_bt example_repo) ''downloads'' ''error'' =
     Some (VError None)"
    by simp
  from t have "newFullRepoEvent first_run
      (no_license_bt\<lparr>ghClient := (ghClient no_license_bt)\<lparr>License := License example_client\<rparr>\<rparr>)
      example_repo ''languages'' =
     newFullRepoEvent first_run no_license_bt example_repo ''languages''"
    by simp
  with restored have 6: "newFullRepoEvent first_run example_bt example_repo ''languages'' =
     newFullRepoEvent first_run no_license_bt example_repo ''languages''"
    by simp
  from 1 2 3 4 5 6 show ?thesis by blast
qed

subsection \<open>Two runs on the same remote data\<close>

lemma range_order_sum:
  fixes f :: "'a \<Rightarrow> 'b::comm_monoid_add"
  assumes "mset ys = mset xs"
  shows "sum_list (map f ys) = sum_list (map f xs)"
  by (metis assms mset_map sum_mset_sum_list)

lemma range_order_length: "is_range_order ro \<Longrightarrow> length (ro xs) = length xs"
  by (metis is_range_order_def size_mset)

lemma collectLanguageInfo_range:
  assumes "is_range_order (range_first rt)"
  shows "collectLanguageInfo rt bt owner repository =
     createListMapStr
       (map (language_entry (sum_list (map snd (fst (ListLanguages (ghClient bt) owner repository)))))
          (range_second rt (fst (ListLanguages (ghClient bt) owner repository))))
       (snd (ListLanguages (ghClient bt) owner repository))"
proof -
  have "mset (range_first rt (fst (ListLanguages (ghClient bt) owner repository))) =
        mset (fst (ListLanguages (ghClient bt) owner repository))"
    using assms by (simp add: is_range_order_def)
  then have "sum_list (map snd (range_first rt (fst (ListLanguages (ghClient bt) owner repository)))) =
        sum_list (map snd (fst (ListLanguages (ghClient bt) owner repository)))"
    by (rule range_order_sum)
  then show ?thesis
    by (simp add: collectLanguageInfo_eq)
qed

lemma newFullRepoEvent_other_keys:
  "k \<noteq> ''@timestamp'' \<Longrightarrow> k \<noteq> ''languages'' \<Longrightarrow>
     newFullRepoEvent rt1 bt repo k = newFullRepoEvent rt2 bt repo k"
  by (simp add: newFullRepoEvent_def Let_def)

lemma newFullRepoEvent_languages:
  "newFullRepoEvent rt bt repo ''languages'' =
     Some (VMapStr (collectLanguageInfo rt bt (User_GetLogin (Repository_Owner repo))
       (Repository_GetName repo)))"
  by (simp add: newFullRepoEvent_def Let_def)

text \<open>
  C8 (as amended). Two runs on the same repository with the same remote data give events
  that agree on every key but \<open>@timestamp\<close> and \<open>languages\<close>. Their languages sections agree
  on every key but \<open>list\<close>, and the two lists hold the same entries, possibly in a
  different order. When the second \<^verbatim>\<open>range\<close> over the language map visits the entries in
  the same order in both runs, the events agree on every key but \<open>@timestamp\<close>.
\<close>

theorem rerun_equal_up_to_timestamp_and_language_order:
  assumes "is_range_order (range_first rt1)" and "is_range_order (range_second rt1)"
    and "is_range_order (range_first rt2)" and "is_range_order (range_second rt2)"
    and "e1 = newFullRepoEvent rt1 bt repo" and "e2 = newFullRepoEvent rt2 bt repo"
  shows "(\<forall>k. k \<noteq> ''@timestamp'' \<and> k \<noteq> ''languages'' \<longrightarrow> e1 k = e2 k) \<and>
         (\<forall>k. k \<noteq> ''list'' \<longrightarrow> nested e1 ''languages'' k = nested e2 ''languages'' k) \<and>
         (\<exists>l1 l2. nested e1 ''languages'' ''list'' = Some (VList l1) \<and>
                  nested e2 ''languages'' ''list'' = Some (VList l2) \<and>
                  mset l1 = mset l2) \<and>
         (range_second rt1 = range_second rt2 \<longrightarrow>
            e1(''@timestamp'' := None) = e2(''@timestamp'' := None))"
proof -
  let ?o = "User_GetLogin (Repository_Owner repo)"
  let ?r = "Repository_GetName repo"
  let ?langs = "fst (ListLanguages (ghClient bt) ?o ?r)"
  let ?err = "snd (ListLanguages (ghClient bt) ?o ?r)"
  let ?f = "language_entry (sum_list (map snd ?langs))"
  have c1: "collectLanguageInfo rt1 bt ?o ?r =
              createListMapStr (map ?f (range_second rt1 ?langs)) ?err"
    by (rule collectLanguageInfo_range [OF assms(1)])
  have c2: "collectLanguageInfo rt2 bt ?o ?r =
              createListMapStr (map ?f (range_second rt2 ?langs)) ?err"
    by (rule collectLanguageInfo_range [OF assms(3)])
  have m: "mset (range_second rt1 ?langs) = mset (range_second rt2 ?langs)"
    using assms(2,4) by (simp add: is_range_order_def)
  have 1: "\<forall>k. k \<noteq> ''@timestamp'' \<and> k \<noteq> ''languages'' \<longrightarrow> e1 k = e2 k"
    using assms(5,6) newFullRepoEvent_other_keys by blast
  have len: "length (range_second rt1 ?langs) = length (range_second rt2 ?langs)"
    using assms(2,4) by (simp add: range_order_length)
  have 2: "\<forall>k. k \<noteq> ''list'' \<longrightarrow> nested e1 ''languages'' k = nested e2 ''languages'' k"
    using assms(5,6) len by (simp add: nested_languages c1 c2 createListMapStr_def)
  have 3: "\<exists>l1 l2. nested e1 ''languages'' ''list'' = Some (VList l1) \<and>
                  nested e2 ''languages'' ''list'' = Some (VList l2) \<and> mset l1 = mset l2"
    using assms(5,6) m by (simp add: nested_languages c1 c2 createListMapStr_def)
  have 4: "e1(''@timestamp'' := None) = e2(''@timestamp'' := None)"
    if same: "range_second rt1 = range_second rt2"
  proof
    fix k
    show "(e1(''@timestamp'' := None)) k = (e2(''@timestamp'' := None)) k"
    proof (cases "k = ''languages''")
      case True
      with same show ?thesis
        using assms(5,6) by (simp add: newFullRepoEvent_languages c1 c2)
    next
      case False
      with 1 show ?thesis by simp
    qed
  qed
  from 1 2 3 4 show ?thesis by blast
qed

theorem rerun_equal_up_to_timestamp_and_language_order_witness:
  "newFullRepoEvent first_run example_bt example_repo ''downloads'' =
     newFullRepoEvent second_run example_bt example_repo ''downloads'' \<and>
   nested (newFullRepoEvent first_run example_bt example_repo) ''languages'' ''count'' =
     nested (newFullRepoEvent second_run example_bt example_repo) ''languages'' ''count'' \<and>
   (\<exists>l1 l2.
      nested (newFullRepoEvent first_run example_bt example_repo) ''languages'' ''list'' =
        Some (VList l1) \<and>
      nested (newFullRepoEvent second_run example_bt example_repo) ''languages'' ''list'' =
        Some (VList l2) \<and>
      mset l1 = mset l2) \<and>
   (newFullRepoEvent first_run example_bt example_repo)(''@timestamp'' := None) =
     (newFullRepoEvent (first_run\<lparr>time_Now := 1500000060\<rparr>) example_bt example_repo)
       (''@timestamp'' := None)"
proof -
  have ro: "is_range_order (range_first first_run)" "is_range_order (range_second first_run)"
    "is_range_order (range_first second_run)" "is_range_order (range_second second_run)"
    "is_range_order (range_first (first_run\<lparr>time_Now := 1500000060\<rparr>))"
    "is_range_order (range_second (first_run\<lparr>time_Now := 1500000060\<rparr>))"
    by (simp_all add: first_run_def second_run_def is_range_order_def)
  from rerun_equal_up_to_timestamp_and_language_order [OF ro(1-4) refl refl, of example_bt example_repo]
  have 1: "newFullRepoEvent first_run example_bt example_repo ''downloads'' =
     newFullRepoEvent second_run example_bt example_repo ''downloads'' \<and>
   nested (newFullRepoEvent first_run example_bt example_repo) ''languages'' ''count'' =
     nested (newFullRepoEvent second_run example_bt example_repo) ''languages'' ''count'' \<and>
   (\<exists>l1 l2.
      nested (newFullRepoEvent first_run example_bt example_repo) ''languages'' ''list'' =
        Some (VList l1) \<and>
      nested (newFullRepoEvent second_run example_bt example_repo) ''languages'' ''list'' =
        Some (VList l2) \<and>
      mset l1 = mset l2)"
    by simp
  from rerun_equal_up_to_timestamp_and_language_order [OF ro(1,2,5,6) refl refl, of example_bt example_repo]
  have 2: "(newFullRepoEvent first_run example_bt example_repo)(''@timestamp'' := None) =
     (newFullRepoEvent (first_run\<lparr>time_Now := 1500000060\<rparr>) example_bt example_repo)
       (''@timestamp'' := None)"
    by simp
  from 1 2 show ?thesis by blast
qed

theorem rerun_language_order_counterexample:
  "is_range_order (range_first first_run) \<and> is_range_order (range_second first_run) \<and>
   is_range_order (range_first second_run) \<and> is_range_order (range_second second_run) \<and>
   nested (newFullRepoEvent first_run example_bt example_repo) ''languages'' ''list'' =
     Some (VList [VMapStr (language_entry 400 (''Go'', 300)),
                  VMapStr (language_entry 400 (''Shell'', 100))]) \<and>
   nested (newFullRepoEvent second_run example_bt example_repo) ''languages'' ''list'' =
     Some (VList [VMapStr (language_entry 400 (''Shell'', 100)),
                  VMapStr (language_entry 400 (''Go'', 300))]) \<and>
   (newFullRepoEvent first_run example_bt example_repo)(''@timestamp'' := None) \<noteq>
     (newFullRepoEvent second_run example_bt example_repo)(''@timestamp'' := None)"
proof -
  let ?e1 = "newFullRepoEvent first_run example_bt example_repo"
  let ?e2 = "newFullRepoEvent second_run example_bt example_repo"
  have ro: "is_range_order (range_first first_run) \<and> is_range_order (range_second first_run) \<and>
    is_range_order (range_first second_run) \<and> is_range_order (range_second second_run)"
    by (simp add: first_run_def second_run_def is_range_order_def)
  have l1: "nested ?e1 ''languages'' ''list'' =
     Some (VList [VMapStr (language_entry 400 (''Go'', 300)),
                  VMapStr (language_entry 400 (''Shell'', 100))])"
    by (simp add: nested_languages collectLanguageInfo_eq createListMapStr_def first_run_def
          example_bt_def example_client_def)
  have l2: "nested ?e2 ''languages'' ''list'' =
     Some (VList [VMapStr (language_entry 400 (''Shell'', 100)),
                  VMapStr (language_entry 400 (''Go'', 300))])"
    by (simp add: nested_languages collectLanguageInfo_eq createListMapStr_def second_run_def
          example_bt_def example_client_def)
  have ne: "language_entry 400 (''Go'', 300) \<noteq> language_entry 400 (''Shell'', 100)"
  proof
    assume "language_entry 400 (''Go'', 300) = language_entry 400 (''Shell'', 100)"
    then have "language_entry 400 (''Go'', 300) ''lang'' = language_entry 400 (''Shell'', 100) ''lang''"
      by simp
    then show False by (simp add: language_entry_def)
  qed
  have "?e1(''@timestamp'' := None) \<noteq> ?e2(''@timestamp'' := None)"
  proof
    assume "?e1(''@timestamp'' := None) = ?e2(''@timestamp'' := None)"
    then have "(?e1(''@timestamp'' := None)) ''languages'' = (?e2(''@timestamp'' := None)) ''languages''"
      by simp
    then have "?e1 ''languages'' = ?e2 ''languages''" by simp
    then have "nested ?e1 ''languages'' ''list'' = nested ?e2 ''languages'' ''list''"
      by (simp add: nested_def)
    with l1 l2 ne show False by simp
  qed
  with ro l1 l2 show ?thesis by blast
qed

subsection \<open>Rounding to binary64\<close>

text \<open>
  A number in the normal range is rounded to a number other than zero, of the same sign,
  within a relative error of \<open>2 ^ -53\<close>. The conversion of an \<^verbatim>\<open>int\<close> and the quotient
  of two converted integers stay in that range.
\<close>

lemma bit_length_pos: "0 < i \<Longrightarrow> 0 < bit_length i"
proof (induction i rule: bit_length.induct)
  case (1 i)
  show ?case
  proof (cases "0 < i div 2")
    case True
    with 1 show ?thesis by (subst bit_length.simps) simp
  next
    case False
    then have "bit_length (i div 2) = 0" by (subst bit_length.simps) simp
    with 1 show ?thesis by (subst bit_length.simps) simp
  qed
qed

lemma bit_length_bounds:
  "0 < i \<Longrightarrow> 2 ^ nat (bit_length i - 1) \<le> i \<and> i < 2 ^ nat (bit_length i)"
proof (induction i rule: bit_length.induct)
  case (1 i)
  show ?case
  proof (cases "0 < i div 2")
    case True
    let ?b = "bit_length (i div 2)"
    from 1 True have ih: "2 ^ nat (?b - 1) \<le> i div 2" "i div 2 < 2 ^ nat ?b" by simp_all
    have bp: "0 < ?b" using True by (rule bit_length_pos)
    have b: "bit_length i = ?b + 1" using 1(2) by (subst bit_length.simps) simp
    have n1: "nat ?b = Suc (nat (?b - 1))" using bp by simp
    have n2: "nat (?b + 1) = Suc (nat ?b)" using bp by simp
    from ih(1) have "2 * 2 ^ nat (?b - 1) \<le> i" by linarith
    then have "2 ^ nat ?b \<le> i" by (subst n1) simp
    moreover from ih(2) have "i < 2 * 2 ^ nat ?b" by linarith
    ultimately show ?thesis by (simp add: b n2)
  next
    case False
    with 1(2) have i1: "i = 1" by linarith
    have "bit_length (1::int) = 1"
      by (subst bit_length.simps, subst bit_length.simps) simp
    with i1 show ?thesis by simp
  qed
qed

lemma power_int_2_nat: "0 \<le> k \<Longrightarrow> power_int (2::rat) k = 2 ^ nat k"
  by (simp add: power_int_def)

lemma floor_log2_bounds:
  assumes "0 < a"
  shows "power_int 2 (floor_log2 a) \<le> a \<and> a < power_int 2 (floor_log2 a + 1)"
proof (cases "1 \<le> a")
  case True
  let ?f = "\<lfloor>a\<rfloor>"
  let ?b = "bit_length ?f"
  have fp: "0 < ?f" using True by simp
  have bp: "0 < ?b" using fp by (rule bit_length_pos)
  from bit_length_bounds [OF fp] have lo: "2 ^ nat (?b - 1) \<le> ?f" and hi: "?f < 2 ^ nat ?b"
    by simp_all
  have e: "floor_log2 a = ?b - 1" using True by (simp add: floor_log2_def)
  have "(2::rat) ^ nat (?b - 1) = of_int (2 ^ nat (?b - 1))" by simp
  also have "\<dots> \<le> of_int ?f" using lo by (simp only: of_int_le_iff)
  also have "\<dots> \<le> a" by simp
  finally have 1: "power_int 2 (?b - 1) \<le> a" using bp by (simp add: power_int_2_nat)
  from hi have "?f + 1 \<le> 2 ^ nat ?b" by simp
  then have "(of_int (?f + 1) :: rat) \<le> of_int (2 ^ nat ?b)" by (simp only: of_int_le_iff)
  then have "(of_int (?f + 1) :: rat) \<le> 2 ^ nat ?b" by simp
  moreover have "a < of_int (?f + 1)" by linarith
  ultimately have "a < 2 ^ nat ?b" by (rule less_le_trans [rotated])
  then have 2: "a < power_int 2 ?b" using bp by (simp add: power_int_2_nat)
  from 1 2 show ?thesis by (simp add: e)
next
  case False
  let ?c = "\<lceil>1 / a\<rceil>"
  let ?b = "bit_length (?c - 1)"
  from False assms have inv: "1 < 1 / a" by simp
  then have c2: "2 \<le> ?c" by (simp add: le_ceiling_iff)
  then have cp: "0 < ?c - 1" by simp
  have bp: "0 < ?b" using cp by (rule bit_length_pos)
  from bit_length_bounds [OF cp] have lo: "2 ^ nat (?b - 1) \<le> ?c - 1" and hi: "?c - 1 < 2 ^ nat ?b"
    by simp_all
  have e: "floor_log2 a = - ?b" using False by (simp add: floor_log2_def)
  from hi have "?c \<le> 2 ^ nat ?b" by simp
  then have "(of_int ?c :: rat) \<le> of_int (2 ^ nat ?b)" by (simp only: of_int_le_iff)
  then have "(of_int ?c :: rat) \<le> 2 ^ nat ?b" by simp
  moreover have "1 / a \<le> of_int ?c" by (rule le_of_int_ceiling)
  ultimately have "1 / a \<le> 2 ^ nat ?b" by (rule order_trans [rotated])
  then have "1 / 2 ^ nat ?b \<le> a" using assms
    by (simp add: field_simps)
  then have 1: "power_int 2 (- ?b) \<le> a" using bp
    by (simp add: power_int_minus power_int_2_nat inverse_eq_divide)
  have "(of_int (2 ^ nat (?b - 1)) :: rat) \<le> of_int (?c - 1)" using lo by (simp only: of_int_le_iff)
  then have "(2::rat) ^ nat (?b - 1) \<le> of_int (?c - 1)" by simp
  moreover have "of_int (?c - 1) < 1 / a" by linarith
  ultimately have "(2::rat) ^ nat (?b - 1) < 1 / a" by (rule le_less_trans)
  then have "a < 1 / 2 ^ nat (?b - 1)" using assms by (simp add: field_simps)
  moreover have "power_int (2::rat) (- ?b + 1) = 1 / 2 ^ nat (?b - 1)"
  proof -
    have "- ?b + 1 = - (?b - 1)" by simp
    then have "power_int (2::rat) (- ?b + 1) = inverse (power_int 2 (?b - 1))"
      by (simp only: power_int_minus)
    then show ?thesis using bp by (simp add: power_int_2_nat inverse_eq_divide)
  qed
  ultimately have 2: "a < power_int 2 (- ?b + 1)" by simp
  from 1 2 show ?thesis by (simp add: e)
qed

lemma round_half_even_error: "\<bar>of_int (round_half_even m) - m\<bar> \<le> 1 / 2"
proof -
  have "of_int \<lfloor>m\<rfloor> \<le> m" "m < of_int \<lfloor>m\<rfloor> + 1" by linarith+
  then show ?thesis
    by (auto simp add: round_half_even_def Let_def)
qed

lemma power_int_2_mult: "power_int (2::rat) (m + n) = power_int 2 m * power_int 2 n"
  by (simp add: power_int_add)

lemma float64_round_abs:
  assumes "0 < a" and "power_int 2 (- 1022) \<le> a" and "a < power_int 2 1023"
  defines "r \<equiv> of_int (round_half_even (a / power_int 2 (floor_log2 a - 52))) * power_int 2 (floor_log2 a - 52)"
  shows "max (floor_log2 a) (- 1022) = floor_log2 a"
    and "0 < r" and "r < power_int 2 1024" and "\<bar>r - a\<bar> \<le> a / 2 ^ 53"
proof -
  let ?e = "floor_log2 a"
  let ?ulp = "power_int (2::rat) (?e - 52)"
  let ?k = "round_half_even (a / ?ulp)"
  from floor_log2_bounds [OF assms(1)]
  have lo: "power_int 2 ?e \<le> a" and hi: "a < power_int 2 (?e + 1)" by simp_all
  have up: "0 < ?ulp" by simp
  have "power_int (2::rat) (- 1022) < power_int 2 (?e + 1)"
    using assms(2) hi by (rule le_less_trans)
  then have "- 1022 < ?e + 1"
    by (metis power_int_increasing linorder_not_le one_le_numeral)
  then show e: "max ?e (- 1022) = ?e" by simp
  have "power_int (2::rat) ?e < power_int 2 1023"
    using lo assms(3) by (rule le_less_trans)
  then have e2: "?e < 1023"
    by (metis power_int_increasing not_less one_le_numeral)
  have split: "power_int (2::rat) ?e = 2 ^ 52 * ?ulp"
    using power_int_2_mult [of 52 "?e - 52"] by simp
  have split1: "power_int (2::rat) (?e + 1) = 2 ^ 53 * ?ulp"
    using power_int_2_mult [of 53 "?e - 52"] by (simp add: add.commute)
  have mlo: "2 ^ 52 \<le> a / ?ulp"
    using lo up by (simp add: split pos_le_divide_eq)
  have mhi: "a / ?ulp < 2 ^ 53"
    using hi up by (simp add: split1 pos_divide_less_eq)
  have err: "\<bar>of_int ?k - a / ?ulp\<bar> \<le> 1 / 2"
    by (rule round_half_even_error)
  from err mlo have "(2::rat) ^ 52 - 1 / 2 \<le> of_int ?k" by linarith
  then have "(of_int (2 ^ 52 - 1) :: rat) < of_int ?k" by simp
  then have "2 ^ 52 - 1 < ?k" by (simp only: of_int_less_iff)
  then have klo: "2 ^ 52 \<le> ?k" by simp
  from err mhi have "of_int ?k < (2::rat) ^ 53 + 1 / 2" by linarith
  then have "(of_int ?k :: rat) < of_int (2 ^ 53 + 1)" by simp
  then have "?k < 2 ^ 53 + 1" by (simp only: of_int_less_iff)
  then have khi: "?k \<le> 2 ^ 53" by simp
  from klo have kpos: "(0::rat) < of_int ?k" by simp
  show "0 < r" unfolding r_def using kpos up by simp
  from khi have "(of_int ?k :: rat) \<le> of_int (2 ^ 53)" by (simp only: of_int_le_iff)
  then have "(of_int ?k :: rat) \<le> 2 ^ 53" by simp
  then have "r \<le> 2 ^ 53 * ?ulp" unfolding r_def using up by simp
  then have "r \<le> power_int 2 (?e + 1)" by (simp add: split1)
  moreover have "power_int (2::rat) (?e + 1) < power_int 2 1024"
    using e2 by (intro power_int_strict_increasing) simp_all
  ultimately show "r < power_int 2 1024" by simp
  have "r - a = (of_int ?k - a / ?ulp) * ?ulp"
    unfolding r_def using up by (simp add: field_simps)
  then have "\<bar>r - a\<bar> = \<bar>of_int ?k - a / ?ulp\<bar> * ?ulp"
    using up by (simp add: abs_mult)
  also have "\<dots> \<le> 1 / 2 * ?ulp"
    using err up by (intro mult_right_mono) simp_all
  also have "\<dots> = power_int 2 ?e / 2 ^ 53"
    by (simp add: split)
  also have "\<dots> \<le> a / 2 ^ 53"
    using lo by (simp add: divide_right_mono)
  finally show "\<bar>r - a\<bar> \<le> a / 2 ^ 53" .
qed

lemma float64_round_normal:
  assumes "x \<noteq> 0" and "power_int 2 (- 1022) \<le> \<bar>x\<bar>" and "\<bar>x\<bar> < power_int 2 1023"
  shows "\<exists>r. float64_round x = Finite r \<and> r \<noteq> 0 \<and> (0 < r \<longleftrightarrow> 0 < x) \<and>
             \<bar>r - x\<bar> \<le> \<bar>x\<bar> / 2 ^ 53"
proof -
  let ?a = "\<bar>x\<bar>"
  let ?r = "rat_of_int (round_half_even (?a / power_int 2 (floor_log2 ?a - 52))) *
              power_int 2 (floor_log2 ?a - 52)"
  have a: "0 < ?a" using assms(1) by simp
  note f = float64_round_abs [OF a assms(2,3)]
  have rn: "\<not> power_int 2 1024 \<le> ?r" using f(3) by (simp only: not_le)
  have r0: "?r \<noteq> 0" using f(2) by linarith
  have eq: "float64_round x = Finite (if 0 < x then ?r else - ?r)"
    by (simp only: float64_round_def Let_def f(1) assms(1) rn r0 if_False)
  show ?thesis
  proof (cases "0 < x")
    case True
    then have "\<bar>?r - x\<bar> \<le> \<bar>x\<bar> / 2 ^ 53" using f(4) by simp
    with True f(2) eq show ?thesis by auto
  next
    case False
    with assms(1) have neg: "x < 0" by simp
    then have "\<bar>- ?r - x\<bar> = \<bar>?r - \<bar>x\<bar>\<bar>" by simp
    then have "\<bar>- ?r - x\<bar> \<le> \<bar>x\<bar> / 2 ^ 53" using f(4) by simp
    moreover have "- ?r < 0" using f(2) by simp
    ultimately show ?thesis using neg eq False by auto
  qed
qed

lemma float64_round_of_int:
  assumes "i \<noteq> 0" and "\<bar>i\<bar> \<le> 2 ^ 63"
  shows "\<exists>r. float64_round (of_int i) = Finite r \<and> r \<noteq> 0 \<and> (0 < r \<longleftrightarrow> 0 < i) \<and>
             \<bar>r - of_int i\<bar> \<le> \<bar>of_int i\<bar> / 2 ^ 53"
proof -
  let ?x = "rat_of_int i"
  have x0: "?x \<noteq> 0" using assms(1) by simp
  have "1 \<le> \<bar>i\<bar>" using assms(1) by simp
  then have "rat_of_int 1 \<le> of_int \<bar>i\<bar>" by (simp only: of_int_le_iff)
  then have one: "1 \<le> \<bar>?x\<bar>" by simp
  have "power_int (2::rat) (- 1022) \<le> power_int 2 0"
    by (rule power_int_increasing) simp_all
  with one have lo: "power_int 2 (- 1022) \<le> \<bar>?x\<bar>" by simp
  have "rat_of_int \<bar>i\<bar> \<le> of_int (2 ^ 63)" using assms(2) by (simp only: of_int_le_iff)
  then have "\<bar>?x\<bar> \<le> power_int 2 63" by simp
  moreover have "power_int (2::rat) 63 < power_int 2 1023"
    by (rule power_int_strict_increasing) simp_all
  ultimately have hi: "\<bar>?x\<bar> < power_int 2 1023" by (rule le_less_trans)
  from float64_round_normal [OF x0 lo hi] show ?thesis
    by simp
qed

lemma relative_error_factor:
  fixes n N u :: rat
  assumes "\<bar>N - n\<bar> \<le> \<bar>n\<bar> * u" and "0 \<le> u"
  shows "\<exists>t. N = n * t \<and> 1 - u \<le> t \<and> t \<le> 1 + u"
proof (cases "n = 0")
  case True
  with assms have "N = 0" by simp
  with True show ?thesis
    using assms by (intro exI [of _ 1]) (simp add: True)
next
  case False
  let ?t = "N / n"
  have "N = n * ?t" using False by simp
  moreover have "\<bar>?t - 1\<bar> \<le> u"
  proof -
    have "?t - 1 = (N - n) / n" using False by (simp add: field_simps)
    then have "\<bar>?t - 1\<bar> = \<bar>N - n\<bar> / \<bar>n\<bar>" by simp
    also have "\<dots> \<le> (\<bar>n\<bar> * u) / \<bar>n\<bar>"
      using assms(1) by (rule divide_right_mono) simp
    also have "\<dots> = u" using False by simp
    finally show ?thesis .
  qed
  then have "1 - u \<le> ?t \<and> ?t \<le> 1 + u" by linarith
  ultimately show ?thesis by blast
qed

lemma quotient_error_upper:
  fixes u :: rat
  assumes "0 \<le> u" and "u \<le> 1 / 5"
  shows "(1 + u) * (1 + u) \<le> (1 + 4 * u) * (1 - u)"
proof -
  have "u * (5 * u) \<le> u * 1" using assms by (intro mult_left_mono) simp_all
  then show ?thesis by (simp add: algebra_simps)
qed

lemma quotient_error_lower:
  fixes u :: rat
  assumes "0 \<le> u"
  shows "(1 - 4 * u) * (1 + u) \<le> (1 - u) * (1 - u)"
proof -
  have "0 \<le> u * (u * 5)" using assms by simp
  with assms show ?thesis by (simp add: algebra_simps)
qed

lemma relative_error_quotient:
  fixes n d N D R u :: rat
  assumes u: "0 \<le> u" "u \<le> 1 / 5"
    and d: "d \<noteq> 0"
    and N: "\<bar>N - n\<bar> \<le> \<bar>n\<bar> * u"
    and D: "\<bar>D - d\<bar> \<le> \<bar>d\<bar> * u"
    and R: "\<bar>R - N / D\<bar> \<le> \<bar>N / D\<bar> * u"
  shows "\<bar>R - n / d\<bar> \<le> \<bar>n / d\<bar> * (4 * u)"
proof -
  from relative_error_factor [OF N u(1)] obtain t1 where t1: "N = n * t1" "1 - u \<le> t1" "t1 \<le> 1 + u"
    by blast
  from relative_error_factor [OF D u(1)] obtain t2 where t2: "D = d * t2" "1 - u \<le> t2" "t2 \<le> 1 + u"
    by blast
  from relative_error_factor [OF R u(1)] obtain t3 where t3: "R = N / D * t3" "1 - u \<le> t3" "t3 \<le> 1 + u"
    by blast
  have u1: "0 < 1 - u" using u by simp
  have p1: "0 < t1" "0 < t2" "0 < t3" using t1 t2 t3 u1 by linarith+
  let ?t = "t1 * t3 / t2"
  have Req: "R = n / d * ?t"
    using t1(1) t2(1) t3(1) d p1 by (simp add: field_simps)
  have up: "?t \<le> 1 + 4 * u"
  proof -
    have "t1 * t3 \<le> (1 + u) * (1 + u)"
      using t1 t3 p1 u by (intro mult_mono) simp_all
    also have "\<dots> \<le> (1 + 4 * u) * (1 - u)" using u by (rule quotient_error_upper)
    also have "\<dots> \<le> (1 + 4 * u) * t2"
      using t2 u by (intro mult_left_mono) simp_all
    finally show ?thesis using p1 by (simp add: pos_divide_le_eq)
  qed
  have lo: "1 - 4 * u \<le> ?t"
  proof (cases "0 \<le> 1 - 4 * u")
    case True
    have "(1 - 4 * u) * t2 \<le> (1 - 4 * u) * (1 + u)"
      using t2 True by (intro mult_left_mono) simp_all
    also have "\<dots> \<le> (1 - u) * (1 - u)" using u(1) by (rule quotient_error_lower)
    also have "\<dots> \<le> t1 * t3"
      using t1 t3 u1 by (intro mult_mono) simp_all
    finally show ?thesis using p1 by (simp add: pos_le_divide_eq)
  next
    case False
    moreover have "0 \<le> ?t" using p1 by simp
    ultimately show ?thesis by linarith
  qed
  have "R - n / d = n / d * (?t - 1)" by (simp add: Req algebra_simps)
  then have "\<bar>R - n / d\<bar> = \<bar>n / d\<bar> * \<bar>?t - 1\<bar>" by (simp add: abs_mult)
  also have "\<dots> \<le> \<bar>n / d\<bar> * (4 * u)"
    using up lo by (intro mult_left_mono) (simp_all add: abs_le_iff)
  finally show ?thesis .
qed

lemma float64_round_zero: "float64_round 0 = Finite 0"
  by (simp add: float64_round_def)

lemma float64_div_Finite:
  "rn \<noteq> 0 \<Longrightarrow> rd \<noteq> 0 \<Longrightarrow> float64_div (Finite rn) (Finite rd) = float64_round (rn / rd)"
  by (simp add: float64_div_def is_infinite_def is_zero_def float64_val_def)

lemma float64_div_zero_Finite:
  "rd \<noteq> 0 \<Longrightarrow> float64_div (Finite 0) (Finite rd) = (if rd < 0 then NegZero else Finite 0)"
  by (simp add: float64_div_def is_infinite_def is_zero_def sign_bit_def)

lemma float64_div_by_zero:
  "float64_div (Finite rn) (Finite 0) = (if rn = 0 then NaN else if rn < 0 then NegInf else PosInf)"
  by (simp add: float64_div_def is_infinite_def is_zero_def sign_bit_def)

lemma rounded_magnitude:
  fixes r x :: rat
  assumes "\<bar>r - x\<bar> \<le> \<bar>x\<bar> / 2 ^ 53"
  shows "\<bar>x\<bar> / 2 \<le> \<bar>r\<bar> \<and> \<bar>r\<bar> \<le> 2 * \<bar>x\<bar>"
proof -
  have "\<bar>x\<bar> / 2 ^ 53 \<le> \<bar>x\<bar> / 2"
    by (rule divide_left_mono) simp_all
  with assms have "\<bar>r - x\<bar> \<le> \<bar>x\<bar> / 2" by linarith
  then show ?thesis by linarith
qed

lemma float64_div_of_ints:
  assumes j: "j \<noteq> 0" and bi: "\<bar>i\<bar> \<le> 2 ^ 63" and bj: "\<bar>j\<bar> \<le> 2 ^ 63"
  defines "q \<equiv> float64_div (float64_round (of_int i)) (float64_round (of_int j))"
  shows "is_finite q \<and>
         \<bar>float64_val q - of_int i / of_int j\<bar> \<le> \<bar>of_int i / of_int j\<bar> / 2 ^ 51"
proof -
  from float64_round_of_int [OF j bj] obtain rd where
    rd: "float64_round (of_int j) = Finite rd" "rd \<noteq> 0"
      "\<bar>rd - of_int j\<bar> \<le> \<bar>of_int j\<bar> / 2 ^ 53"
    by blast
  show ?thesis
  proof (cases "i = 0")
    case True
    then have "float64_round (of_int i) = Finite 0"
      by (simp add: float64_round_zero)
    then have "q = (if rd < 0 then NegZero else Finite 0)"
      by (simp only: q_def rd(1) float64_div_zero_Finite [OF rd(2)])
    with True show ?thesis
      by (simp add: is_finite_def float64_val_def)
  next
    case False
    from float64_round_of_int [OF False bi] obtain rn where
      rn: "float64_round (of_int i) = Finite rn" "rn \<noteq> 0"
        "\<bar>rn - of_int i\<bar> \<le> \<bar>of_int i\<bar> / 2 ^ 53"
      by blast
    have q: "q = float64_round (rn / rd)"
      by (simp only: q_def rn(1) rd(1) float64_div_Finite [OF rn(2) rd(2)])
    have i1: "1 \<le> \<bar>rat_of_int i\<bar>"
    proof -
      have "1 \<le> \<bar>i\<bar>" using False by simp
      then have "rat_of_int 1 \<le> of_int \<bar>i\<bar>" by (simp only: of_int_le_iff)
      then show ?thesis by simp
    qed
    have j1: "1 \<le> \<bar>rat_of_int j\<bar>"
    proof -
      have "1 \<le> \<bar>j\<bar>" using j by simp
      then have "rat_of_int 1 \<le> of_int \<bar>j\<bar>" by (simp only: of_int_le_iff)
      then show ?thesis by simp
    qed
    have i2: "\<bar>rat_of_int i\<bar> \<le> 2 ^ 63"
    proof -
      have "rat_of_int \<bar>i\<bar> \<le> of_int (2 ^ 63)" using bi by (simp only: of_int_le_iff)
      then show ?thesis by simp
    qed
    have j2: "\<bar>rat_of_int j\<bar> \<le> 2 ^ 63"
    proof -
      have "rat_of_int \<bar>j\<bar> \<le> of_int (2 ^ 63)" using bj by (simp only: of_int_le_iff)
      then show ?thesis by simp
    qed
    from rounded_magnitude [OF rn(3)] i1 i2
    have mn: "1 / 2 \<le> \<bar>rn\<bar>" "\<bar>rn\<bar> \<le> 2 ^ 64" by simp_all
    from rounded_magnitude [OF rd(3)] j1 j2
    have md: "1 / 2 \<le> \<bar>rd\<bar>" "\<bar>rd\<bar> \<le> 2 ^ 64" by simp_all
    have x0: "rn / rd \<noteq> 0" using rn(2) rd(2) by simp
    have "\<bar>rn / rd\<bar> = \<bar>rn\<bar> / \<bar>rd\<bar>" by simp
    also have "\<dots> \<le> 2 ^ 64 / (1 / 2)"
      using mn md by (intro frac_le) simp_all
    finally have "\<bar>rn / rd\<bar> \<le> power_int 2 65" by simp
    moreover have "power_int (2::rat) 65 < power_int 2 1023"
      by (rule power_int_strict_increasing) simp_all
    ultimately have hi: "\<bar>rn / rd\<bar> < power_int 2 1023" by (rule le_less_trans)
    have "(1 / 2) / 2 ^ 64 \<le> \<bar>rn\<bar> / \<bar>rd\<bar>"
      using mn md by (intro frac_le) simp_all
    then have "(1 / 2) / 2 ^ 64 \<le> \<bar>rn / rd\<bar>"
      by (simp only: abs_divide)
    moreover have "power_int (2::rat) (- 65) = (1 / 2) / 2 ^ 64"
      by (simp add: power_int_minus)
    ultimately have "power_int 2 (- 65) \<le> \<bar>rn / rd\<bar>"
      by (simp only:)
    moreover have "power_int (2::rat) (- 1022) \<le> power_int 2 (- 65)"
      by (rule power_int_increasing) simp_all
    ultimately have lo: "power_int 2 (- 1022) \<le> \<bar>rn / rd\<bar>" by (rule order_trans [rotated])
    from float64_round_normal [OF x0 lo hi] obtain rr where
      rr: "float64_round (rn / rd) = Finite rr" "\<bar>rr - rn / rd\<bar> \<le> \<bar>rn / rd\<bar> / 2 ^ 53"
      by blast
    have jr: "rat_of_int j \<noteq> 0" using j by simp
    have u0: "(0::rat) \<le> 1 / 2 ^ 53" and u5: "(1::rat) / 2 ^ 53 \<le> 1 / 5" by simp_all
    have en: "\<bar>rn - of_int i\<bar> \<le> \<bar>of_int i\<bar> * (1 / 2 ^ 53)" using rn(3) by simp
    have ed: "\<bar>rd - of_int j\<bar> \<le> \<bar>of_int j\<bar> * (1 / 2 ^ 53)" using rd(3) by simp
    have er: "\<bar>rr - rn / rd\<bar> \<le> \<bar>rn / rd\<bar> * (1 / 2 ^ 53)" using rr(2) by simp
    have "\<bar>rr - of_int i / of_int j\<bar> \<le> \<bar>of_int i / of_int j\<bar> * (4 * (1 / 2 ^ 53))"
      by (rule relative_error_quotient [OF u0 u5 jr en ed er])
    then have "\<bar>rr - of_int i / of_int j\<bar> \<le> \<bar>of_int i / of_int j\<bar> / 2 ^ 51"
      by simp
    then show ?thesis
      by (simp add: q rr(1) is_finite_def float64_val_def)
  qed
qed

lemma float64_div_of_int_by_zero:
  assumes "\<bar>i\<bar> \<le> 2 ^ 63"
  shows "\<not> is_finite (float64_div (float64_round (of_int i)) (float64_round 0))"
proof (cases "i = 0")
  case True
  then show ?thesis
    by (simp add: float64_round_zero float64_div_by_zero is_finite_def)
next
  case False
  from float64_round_of_int [OF False assms] obtain rn where
    rn: "float64_round (of_int i) = Finite rn" "rn \<noteq> 0"
    by blast
  then show ?thesis
    by (simp add: float64_round_zero float64_div_by_zero is_finite_def)
qed

subsection \<open>Language ratios\<close>

lemma ratios_of_createListMapStr:
  "ratios_of (createListMapStr (map (language_entry s) xs) err) =
     map (\<lambda>(lang, n). float64_quot n s) xs"
  by (simp add: ratios_of_def createListMapStr_def ratio_of_entry_def language_entry_def
        comp_def split_beta)

lemma go_int_magnitude: "\<bar>sint (n :: go_int)\<bar> \<le> 2 ^ 63"
  using sint_ge [of n] sint_lt [of n] by simp

lemma float64_quot_accuracy:
  assumes "sint d \<noteq> 0"
  shows "is_finite (float64_quot n d) \<and>
         \<bar>float64_val (float64_quot n d) - of_int (sint n) / of_int (sint d)\<bar> \<le>
           \<bar>of_int (sint n) / of_int (sint d)\<bar> / 2 ^ 51"
  unfolding float64_quot_def float64_of_int_def
  by (rule float64_div_of_ints [OF assms go_int_magnitude go_int_magnitude])

lemma float64_quot_zero_divisor:
  assumes "sint d = 0"
  shows "\<not> is_finite (float64_quot n d)"
proof -
  have "rat_of_int (sint d) = 0" by (simp only: assms of_int_0)
  then show ?thesis
    unfolding float64_quot_def float64_of_int_def
    using float64_div_of_int_by_zero [OF go_int_magnitude, of n] by (simp only: not_False_eq_True)
qed

lemma sum_list_abs_diff:
  fixes f g h :: "'a \<Rightarrow> rat"
  assumes "\<forall>x \<in> set xs. \<bar>f x - g x\<bar> \<le> h x"
  shows "\<bar>sum_list (map f xs) - sum_list (map g xs)\<bar> \<le> sum_list (map h xs)"
  using assms
proof (induction xs)
  case Nil
  then show ?case by simp
next
  case (Cons x xs)
  then have "\<bar>f x - g x\<bar> \<le> h x"
    and "\<bar>sum_list (map f xs) - sum_list (map g xs)\<bar> \<le> sum_list (map h xs)"
    by simp_all
  then show ?case by simp
qed

lemma sum_list_quotients:
  fixes d :: rat
  shows "sum_list (map (\<lambda>x. of_int (f x) / d) xs) = of_int (sum_list (map f xs)) / d"
  by (induction xs) (simp_all add: add_divide_distrib)

lemma ratios_sum_near_one:
  assumes perm: "mset ys = mset langs"
    and pos: "\<forall>(lang, n) \<in> set langs. 0 \<le> sint n"
    and s0: "sint s \<noteq> 0"
    and nowrap: "sint s = sum_list (map (\<lambda>(lang, n). sint n) langs)"
  shows "\<bar>sum_list (map float64_val (map (\<lambda>(lang, n). float64_quot n s) ys)) - 1\<bar> \<le> 1 / 2 ^ 51"
proof -
  let ?S = "rat_of_int (sint s)"
  let ?v = "\<lambda>x. float64_val (float64_quot (snd x) s)"
  let ?g = "\<lambda>x. rat_of_int (sint (snd x)) / ?S"
  let ?h = "\<lambda>x. rat_of_int (sint (snd x)) / (?S * 2 ^ 51)"
  have set_eq: "set ys = set langs" using perm by (rule mset_eq_setD)
  have tot: "sum_list (map (\<lambda>x. sint (snd x)) langs) = sint s"
    using nowrap by (simp add: case_prod_unfold)
  have nonneg: "0 \<le> sint (snd x)" if "x \<in> set langs" for x
    using pos that by (auto simp add: case_prod_unfold)
  have "0 \<le> sum_list (map (\<lambda>x. sint (snd x)) langs)"
    by (rule sum_list_nonneg) (auto dest: nonneg)
  with tot s0 have spos: "0 < sint s" by simp
  then have Spos: "0 < ?S" by (simp only: of_int_0_less_iff)
  have bound: "\<bar>?v x - ?g x\<bar> \<le> ?h x" if "x \<in> set ys" for x
  proof -
    from that set_eq have "0 \<le> sint (snd x)" by (auto dest: nonneg)
    then have "0 \<le> rat_of_int (sint (snd x))" by (simp only: of_int_0_le_iff)
    then have "\<bar>?g x\<bar> = ?g x" using Spos by (simp only: abs_of_nonneg divide_nonneg_pos)
    with float64_quot_accuracy [OF s0, of "snd x"]
    have "\<bar>?v x - ?g x\<bar> \<le> ?g x / 2 ^ 51" by (simp only:)
    also have "?g x / 2 ^ 51 = ?h x" by (simp only: divide_divide_eq_left)
    finally show ?thesis .
  qed
  have "\<bar>sum_list (map ?v ys) - sum_list (map ?g ys)\<bar> \<le> sum_list (map ?h ys)"
    by (rule sum_list_abs_diff) (use bound in blast)
  moreover have "sum_list (map ?g ys) = 1"
  proof -
    have "sum_list (map ?g ys) = sum_list (map ?g langs)"
      using perm by (rule range_order_sum)
    also have "\<dots> = rat_of_int (sum_list (map (\<lambda>x. sint (snd x)) langs)) / ?S"
      by (rule sum_list_quotients)
    also have "\<dots> = ?S / ?S" by (simp only: tot)
    also have "\<dots> = 1" using Spos by (simp only: divide_self_if) simp
    finally show ?thesis .
  qed
  moreover have "sum_list (map ?h ys) = 1 / 2 ^ 51"
  proof -
    have "sum_list (map ?h ys) = sum_list (map ?h langs)"
      using perm by (rule range_order_sum)
    also have "\<dots> = rat_of_int (sum_list (map (\<lambda>x. sint (snd x)) langs)) / (?S * 2 ^ 51)"
      by (rule sum_list_quotients)
    also have "\<dots> = ?S / (?S * 2 ^ 51)" by (simp only: tot)
    also have "\<dots> = 1 / 2 ^ 51" using Spos by (simp only: divide_divide_eq_left [symmetric] divide_self_if) simp
    finally show ?thesis .
  qed
  moreover have "map float64_val (map (\<lambda>(lang, n). float64_quot n s) ys) = map ?v ys"
    by (simp only: map_map comp_def case_prod_unfold)
  ultimately show ?thesis by (simp only:)
qed

lemma float64_quot_zero_zero: "float64_quot 0 0 = NaN"
  by (simp add: float64_quot_def float64_of_int_def float64_round_zero float64_div_by_zero)

lemma float64_quot_one_third:
  "float64_quot 1 3 = Finite (6004799503160661 / 18014398509481984)"
  by code_simp

lemma float64_quot_two_thirds:
  "float64_quot 2 3 = Finite (6004799503160661 / 9007199254740992)"
  by code_simp

text \<open>The operands are rounded before the division: \<open>2 ^ 63 - 1\<close> becomes \<open>2 ^ 63\<close>.\<close>

lemma float64_quot_rounds_operands:
  "float64_quot (2 ^ 63 - 1) (- (2 ^ 63)) = Finite (- 1)"
  by code_simp

text \<open>
  C2 (as amended). The languages section has one entry for each language of the fetched
  map, with the language, its byte count and the ratio \<^verbatim>\<open>float64(bytes) / float64(sum)\<close>,
  where the sum is the sum of all byte counts in Go's integer arithmetic. When that sum is
  not zero, every ratio is a number (not NaN, not an infinity) within a relative error of
  \<open>2 ^ -51\<close> of the byte count divided by the sum; when moreover no byte count is negative
  and the sum did not wrap around, the numbers the ratios denote add up to within
  \<open>2 ^ -51\<close> of 1. An empty map gives no entry, and no division is made. When the sum is
  zero, every ratio is NaN or an infinity.
\<close>

theorem language_ratios:
  assumes "ListLanguages (ghClient bt) owner repository = (langs, err)"
    and "is_range_order (range_first rt)" and "is_range_order (range_second rt)"
    and "s = sum_list (map snd langs)"
    and "sec = collectLanguageInfo rt bt owner repository"
  shows "(\<exists>entries. sec ''list'' = Some (VList (map VMapStr entries)) \<and>
            mset entries = image_mset (language_entry s) (mset langs)) \<and>
         (\<forall>(lang, n) \<in> set langs.
            language_entry s (lang, n) =
              [''lang'' \<mapsto> VString lang, ''bytes'' \<mapsto> VInt n,
               ''ratio'' \<mapsto> VFloat (float64_div (float64_of_int n) (float64_of_int s))]) \<and>
         length (ratios_of sec) = length langs \<and>
         (langs = [] \<longrightarrow>
            sec = [''count'' \<mapsto> VInt 0, ''list'' \<mapsto> VList [], ''error'' \<mapsto> VError err]) \<and>
         (sint s \<noteq> 0 \<longrightarrow>
            (\<forall>(lang, n) \<in> set langs.
               is_finite (float64_quot n s) \<and>
               \<bar>float64_val (float64_quot n s) - of_int (sint n) / of_int (sint s)\<bar> \<le>
                 \<bar>of_int (sint n) / of_int (sint s)\<bar> / 2 ^ 51) \<and>
            (\<forall>r \<in> set (ratios_of sec). is_finite r)) \<and>
         (sint s \<noteq> 0 \<and> (\<forall>(lang, n) \<in> set langs. 0 \<le> sint n) \<and>
          sint s = sum_list (map (\<lambda>(lang, n). sint n) langs) \<longrightarrow>
            \<bar>sum_list (map float64_val (ratios_of sec)) - 1\<bar> \<le> 1 / 2 ^ 51) \<and>
         (sint s = 0 \<longrightarrow> (\<forall>r \<in> set (ratios_of sec). \<not> is_finite r))"
proof -
  let ?ys = "range_second rt langs"
  have m: "mset ?ys = mset langs"
    using assms(3) by (simp add: is_range_order_def)
  have sec: "sec = createListMapStr (map (language_entry s) ?ys) err"
    using assms(1,4,5) collectLanguageInfo_range [OF assms(2), of bt owner repository] by simp
  have r: "ratios_of sec = map (\<lambda>(lang, n). float64_quot n s) ?ys"
    by (simp add: sec ratios_of_createListMapStr)
  have 1: "\<exists>entries. sec ''list'' = Some (VList (map VMapStr entries)) \<and>
            mset entries = image_mset (language_entry s) (mset langs)"
  proof (intro exI conjI)
    show "sec ''list'' = Some (VList (map VMapStr (map (language_entry s) ?ys)))"
      by (simp add: sec createListMapStr_def)
    show "mset (map (language_entry s) ?ys) = image_mset (language_entry s) (mset langs)"
      by (simp add: m)
  qed
  have 2: "\<forall>(lang, n) \<in> set langs.
            language_entry s (lang, n) =
              [''lang'' \<mapsto> VString lang, ''bytes'' \<mapsto> VInt n,
               ''ratio'' \<mapsto> VFloat (float64_div (float64_of_int n) (float64_of_int s))]"
    by (simp add: language_entry_def float64_quot_def)
  have 3: "length (ratios_of sec) = length langs"
    using assms(3) by (simp add: r range_order_length)
  have 4: "langs = [] \<longrightarrow>
            sec = [''count'' \<mapsto> VInt 0, ''list'' \<mapsto> VList [], ''error'' \<mapsto> VError err]"
    using assms(3) by (simp add: sec range_order_nil createListMapStr_nil)
  have 5: "sint s \<noteq> 0 \<longrightarrow>
            (\<forall>(lang, n) \<in> set langs.
               is_finite (float64_quot n s) \<and>
               \<bar>float64_val (float64_quot n s) - of_int (sint n) / of_int (sint s)\<bar> \<le>
                 \<bar>of_int (sint n) / of_int (sint s)\<bar> / 2 ^ 51) \<and>
            (\<forall>r \<in> set (ratios_of sec). is_finite r)"
  proof
    assume s0: "sint s \<noteq> 0"
    have "\<forall>(lang, n) \<in> set langs.
               is_finite (float64_quot n s) \<and>
               \<bar>float64_val (float64_quot n s) - of_int (sint n) / of_int (sint s)\<bar> \<le>
                 \<bar>of_int (sint n) / of_int (sint s)\<bar> / 2 ^ 51"
      using float64_quot_accuracy [OF s0] by blast
    moreover have "\<forall>r \<in> set (ratios_of sec). is_finite r"
      using float64_quot_accuracy [OF s0] by (auto simp add: r)
    ultimately show "(\<forall>(lang, n) \<in> set langs.
               is_finite (float64_quot n s) \<and>
               \<bar>float64_val (float64_quot n s) - of_int (sint n) / of_int (sint s)\<bar> \<le>
                 \<bar>of_int (sint n) / of_int (sint s)\<bar> / 2 ^ 51) \<and>
            (\<forall>r \<in> set (ratios_of sec). is_finite r)" ..
  qed
  have 6: "sint s \<noteq> 0 \<and> (\<forall>(lang, n) \<in> set langs. 0 \<le> sint n) \<and>
          sint s = sum_list (map (\<lambda>(lang, n). sint n) langs) \<longrightarrow>
            \<bar>sum_list (map float64_val (ratios_of sec)) - 1\<bar> \<le> 1 / 2 ^ 51"
  proof (intro impI, elim conjE)
    assume s0: "sint s \<noteq> 0" and pos: "\<forall>(lang, n) \<in> set langs. 0 \<le> sint n"
      and nowrap: "sint s = sum_list (map (\<lambda>(lang, n). sint n) langs)"
    from ratios_sum_near_one [OF m pos s0 nowrap]
    show "\<bar>sum_list (map float64_val (ratios_of sec)) - 1\<bar> \<le> 1 / 2 ^ 51"
      by (simp only: r)
  qed
  have 7: "sint s = 0 \<longrightarrow> (\<forall>r \<in> set (ratios_of sec). \<not> is_finite r)"
    by (auto simp add: r float64_quot_zero_divisor)
  from 1 2 3 4 5 6 7 show ?thesis by blast
qed

theorem language_ratios_witness:
  "\<bar>sum_list (map float64_val
      (ratios_of (collectLanguageInfo second_run example_bt ''octocat'' ''Hello-World''))) - 1\<bar> \<le>
     1 / 2 ^ 51 \<and>
   length (ratios_of (collectLanguageInfo second_run example_bt ''octocat'' ''Hello-World'')) = 2 \<and>
   is_finite (float64_quot 300 400) \<and>
   \<bar>float64_val (float64_quot 300 400) - 3 / 4\<bar> \<le> (3 / 4) / 2 ^ 51 \<and>
   collectLanguageInfo second_run failing_bt ''octocat'' ''Hello-World'' =
     [''count'' \<mapsto> VInt 0, ''list'' \<mapsto> VList [], ''error'' \<mapsto> VError (Some timed_out)] \<and>
   \<not> is_finite (hd (ratios_of (collectLanguageInfo first_run zero_bytes_bt ''octocat'' ''Hello-World'')))"
proof -
  have ro: "is_range_order (range_first first_run)" "is_range_order (range_second first_run)"
    "is_range_order (range_first second_run)" "is_range_order (range_second second_run)"
    by (simp_all add: first_run_def second_run_def is_range_order_def)
  have ok: "ListLanguages (ghClient example_bt) ''octocat'' ''Hello-World'' =
              ([(''Go'', 300), (''Shell'', 100)], None)"
    by (simp add: example_bt_def example_client_def)
  have ko: "ListLanguages (ghClient failing_bt) ''octocat'' ''Hello-World'' = ([], Some timed_out)"
    by (simp add: failing_bt_def)
  have zero: "ListLanguages (ghClient zero_bytes_bt) ''octocat'' ''Hello-World'' = ([(''Go'', 0)], None)"
    by (simp add: zero_bytes_bt_def)
  from language_ratios [OF ok ro(3,4) refl refl]
  have 1: "\<bar>sum_list (map float64_val
      (ratios_of (collectLanguageInfo second_run example_bt ''octocat'' ''Hello-World''))) - 1\<bar> \<le>
     1 / 2 ^ 51 \<and>
   length (ratios_of (collectLanguageInfo second_run example_bt ''octocat'' ''Hello-World'')) = 2 \<and>
   is_finite (float64_quot 300 400) \<and>
   \<bar>float64_val (float64_quot 300 400) - 3 / 4\<bar> \<le> (3 / 4) / 2 ^ 51"
    by simp
  from language_ratios [OF ko ro(3,4) refl refl]
  have 2: "collectLanguageInfo second_run failing_bt ''octocat'' ''Hello-World'' =
     [''count'' \<mapsto> VInt 0, ''list'' \<mapsto> VList [], ''error'' \<mapsto> VError (Some timed_out)]"
    by simp
  from language_ratios [OF zero ro(1,2) refl refl]
  have "length (ratios_of (collectLanguageInfo first_run zero_bytes_bt ''octocat'' ''Hello-World'')) = 1"
    and "\<forall>r \<in> set (ratios_of (collectLanguageInfo first_run zero_bytes_bt ''octocat'' ''Hello-World'')).
           \<not> is_finite r"
    by simp_all
  then have 3: "\<not> is_finite (hd (ratios_of (collectLanguageInfo first_run zero_bytes_bt ''octocat'' ''Hello-World'')))"
    by (metis hd_in_set length_0_conv zero_neq_one)
  from 1 2 3 show ?thesis by blast
qed

theorem language_ratio_zero_sum_counterexample:
  "ListLanguages (ghClient zero_bytes_bt) ''octocat'' ''Hello-World'' = ([(''Go'', 0)], None) \<and>
   collectLanguageInfo first_run zero_bytes_bt ''octocat'' ''Hello-World'' ''list'' =
     Some (VList [VMapStr [''lang'' \<mapsto> VString ''Go'', ''bytes'' \<mapsto> VInt 0,
                           ''ratio'' \<mapsto> VFloat NaN]]) \<and>
   ratios_of (collectLanguageInfo first_run zero_bytes_bt ''octocat'' ''Hello-World'') = [NaN] \<and>
   ListLanguages (ghClient thirds_bt) ''octocat'' ''Hello-World'' = ([(''Go'', 1), (''C'', 2)], None) \<and>
   ratios_of (collectLanguageInfo first_run thirds_bt ''octocat'' ''Hello-World'') =
     [Finite (6004799503160661 / 18014398509481984), Finite (6004799503160661 / 9007199254740992)] \<and>
   (6004799503160661 / 18014398509481984 :: rat) \<noteq> 1 / 3 \<and>
   (6004799503160661 / 18014398509481984 + 6004799503160661 / 9007199254740992 :: rat) \<noteq> 1"
proof -
  have l: "ListLanguages (ghClient zero_bytes_bt) ''octocat'' ''Hello-World'' = ([(''Go'', 0)], None)"
    by (simp add: zero_bytes_bt_def)
  have c: "collectLanguageInfo first_run zero_bytes_bt ''octocat'' ''Hello-World'' =
      [''count'' \<mapsto> VInt 1,
       ''list'' \<mapsto> VList [VMapStr [''lang'' \<mapsto> VString ''Go'', ''bytes'' \<mapsto> VInt 0,
                              ''ratio'' \<mapsto> VFloat NaN]],
       ''error'' \<mapsto> VError None]"
    by (simp add: collectLanguageInfo_def l first_run_def float64_quot_zero_zero createListMapStr_def)
  have r: "ratios_of (collectLanguageInfo first_run zero_bytes_bt ''octocat'' ''Hello-World'') = [NaN]"
    by (simp add: c ratios_of_def ratio_of_entry_def)
  have l3: "ListLanguages (ghClient thirds_bt) ''octocat'' ''Hello-World'' = ([(''Go'', 1), (''C'', 2)], None)"
    by (simp add: thirds_bt_def)
  have "collectLanguageInfo first_run thirds_bt ''octocat'' ''Hello-World'' =
      createListMapStr (map (language_entry 3) [(''Go'', 1), (''C'', 2)]) None"
    by (simp add: collectLanguageInfo_eq l3 first_run_def)
  then have r3: "ratios_of (collectLanguageInfo first_run thirds_bt ''octocat'' ''Hello-World'') =
     [Finite (6004799503160661 / 18014398509481984), Finite (6004799503160661 / 9007199254740992)]"
    by (simp only: ratios_of_createListMapStr) (simp add: float64_quot_one_third float64_quot_two_thirds)
  have n: "(6004799503160661 / 18014398509481984 :: rat) \<noteq> 1 / 3"
    "(6004799503160661 / 18014398509481984 + 6004799503160661 / 9007199254740992 :: rat) \<noteq> 1"
    by simp_all
  from l c r l3 r3 n show ?thesis by simp
qed

end
